theory Spec2Isabelle
  imports Complex_Main "HOL-Library.Sublist"
begin

section \<open>Python strings\<close>

text \<open>
  A Python \<open>str\<close> is modelled as a \<open>string\<close>, one \<open>char\<close> per code point, for the
  code points below 256. The string methods used by the pipeline are written out as
  list functions.
\<close>

definition py_isspace :: "char \<Rightarrow> bool" where
  \<comment> \<open>\<open>str.isspace\<close> on one code point below 256: TAB..CR, FS..US, SPACE, NEL, NBSP.\<close>
  "py_isspace c = (of_char c \<in> {9, 10, 11, 12, 13, 28, 29, 30, 31, 32, 133, 160 :: nat})"

definition py_strip :: "string \<Rightarrow> string" where
  \<comment> \<open>\<open>s.strip()\<close>\<close>
  "py_strip s = rev (dropWhile py_isspace (rev (dropWhile py_isspace s)))"

definition py_lower_char :: "char \<Rightarrow> char" where
  \<comment> \<open>\<open>A..Z\<close> and the upper-case letters of Latin-1 move up by 32; the rest is unchanged.\<close>
  "py_lower_char c =
     (let n = (of_char c :: nat)
      in if (65 \<le> n \<and> n \<le> 90) \<or> (192 \<le> n \<and> n \<le> 222 \<and> n \<noteq> 215)
         then char_of (n + 32) else c)"

definition py_lower :: "string \<Rightarrow> string" where
  \<comment> \<open>\<open>s.lower()\<close> on code points below 256, where it maps one code point to one.
      Beyond them it need not keep the length (U+0130 becomes two code points), so no
      statement below rests on the length of a lower-cased string being that of the
      string.\<close>
  "py_lower s = map py_lower_char s"

definition startswith :: "string \<Rightarrow> string \<Rightarrow> bool" where
  \<comment> \<open>\<open>s.startswith(p)\<close>: a comparison of code points, so letter case matters\<close>
  "startswith s p = prefix p s"

fun split_on :: "char \<Rightarrow> string \<Rightarrow> string list" where
  \<comment> \<open>\<open>s.split(sep)\<close> for a separator of one character\<close>
  "split_on sep [] = [[]]"
| "split_on sep (c # cs) =
     (if c = sep then [] # split_on sep cs
      else (case split_on sep cs of [] \<Rightarrow> [[c]] | w # ws \<Rightarrow> (c # w) # ws))"

definition split_once :: "char \<Rightarrow> string \<Rightarrow> string list" where
  \<comment> \<open>\<open>s.split(sep, 1)\<close>\<close>
  "split_once sep s =
     (if sep \<in> set s
      then [takeWhile (\<lambda>c. c \<noteq> sep) s, tl (dropWhile (\<lambda>c. c \<noteq> sep) s)]
      else [s])"

fun py_join :: "string \<Rightarrow> string list \<Rightarrow> string" where
  \<comment> \<open>\<open>sep.join(xs)\<close>\<close>
  "py_join sep [] = []"
| "py_join sep [x] = x"
| "py_join sep (x # y # ys) = x @ sep @ py_join sep (y # ys)"

fun count_from :: "nat \<Rightarrow> string \<Rightarrow> string \<Rightarrow> nat" where
  \<comment> \<open>the scan of \<open>str.count\<close>: after a match the scan resumes behind it, so
      \<open>skip\<close> characters of the match are passed over without being tested\<close>
  "count_from skip sub [] = 0"
| "count_from skip sub (c # cs) =
     (if 0 < skip then count_from (skip - 1) sub cs
      else if startswith (c # cs) sub then 1 + count_from (length sub - 1) sub cs
      else count_from 0 sub cs)"

definition py_count :: "string \<Rightarrow> string \<Rightarrow> nat" where
  \<comment> \<open>\<open>s.count(sub)\<close>: the number of non-overlapping occurrences\<close>
  "py_count s sub = (if sub = [] then length s + 1 else count_from 0 sub s)"

fun str_nat :: "nat \<Rightarrow> string" where
  \<comment> \<open>\<open>str(n)\<close> for \<open>n \<ge> 0\<close>, as an f-string formats a count\<close>
  "str_nat n =
     (if n < 10 then [char_of (48 + n)]
      else str_nat (n div 10) @ [char_of (48 + n mod 10)])"

declare str_nat.simps [simp del]

datatype py_error = IndexError | ValueError

definition item :: "'a list \<Rightarrow> nat \<Rightarrow> py_error + 'a" where
  \<comment> \<open>\<open>xs[i]\<close> for a literal index \<open>i \<ge> 0\<close>\<close>
  "item xs i = (if i < length xs then Inr (xs ! i) else Inl IndexError)"

definition is_digit :: "char \<Rightarrow> bool" where
  "is_digit c = (48 \<le> (of_char c :: nat) \<and> (of_char c :: nat) \<le> 57)"

definition digit_val :: "char \<Rightarrow> nat" where
  "digit_val c = of_char c - 48"

fun int_digits :: "nat \<Rightarrow> string \<Rightarrow> nat option" where
  \<comment> \<open>the rest of a decimal literal after its first digit: digits, with single
      underscores allowed between two digits\<close>
  "int_digits acc [] = Some acc"
| "int_digits acc (c # cs) =
     (if is_digit c then int_digits (acc * 10 + digit_val c) cs
      else if c = CHR ''_'' then
        (case cs of
           [] \<Rightarrow> None
         | d # ds \<Rightarrow> if is_digit d then int_digits (acc * 10 + digit_val d) ds else None)
      else None)"

definition unsigned_int :: "string \<Rightarrow> nat option" where
  "unsigned_int s =
     (case s of
        [] \<Rightarrow> None
      | c # cs \<Rightarrow> if is_digit c then int_digits (digit_val c) cs else None)"

definition py_int :: "string \<Rightarrow> py_error + int" where
  \<comment> \<open>\<open>int(s)\<close>: surrounding whitespace, an optional sign, a decimal literal; anything
      else raises ValueError\<close>
  "py_int s =
     (case py_strip s of
        [] \<Rightarrow> Inl ValueError
      | c # cs \<Rightarrow>
          if c = CHR ''-'' then
            (case unsigned_int cs of None \<Rightarrow> Inl ValueError | Some n \<Rightarrow> Inr (- int n))
          else if c = CHR ''+'' then
            (case unsigned_int cs of None \<Rightarrow> Inl ValueError | Some n \<Rightarrow> Inr (int n))
          else
            (case unsigned_int (c # cs) of None \<Rightarrow> Inl ValueError | Some n \<Rightarrow> Inr (int n)))"

definition slice_to :: "'a list \<Rightarrow> int \<Rightarrow> 'a list" where
  \<comment> \<open>\<open>xs[:n]\<close>: a negative \<open>n\<close> counts from the end\<close>
  "slice_to xs n =
     (if 0 \<le> n then take (nat n) xs else take (nat (int (length xs) + n)) xs)"

definition sorted_desc :: "('a \<Rightarrow> 'k::linorder) \<Rightarrow> 'a list \<Rightarrow> 'a list" where
  \<comment> \<open>\<open>sorted(xs, key=key, reverse=True)\<close> and \<open>xs.sort(key=key, reverse=True)\<close>: the
      built-in sort is stable, and with \<open>reverse=True\<close> it reverses the list, sorts it
      ascending and reverses the result, so equal keys keep their order\<close>
  "sorted_desc key xs = rev (sort_key key (rev xs))"

section \<open>Data model\<close>

text \<open>
  The dictionary that \<open>analyze_article_quality\<close> returns. The two fallback dictionaries
  have no \<open>raw_response\<close> key: \<open>None\<close> here.
\<close>

record analysis =
  quality_score :: int
  relevance_score :: int
  category :: string
  insights :: "string list"
  reason :: string
  llm_analysis :: bool
  raw_response :: "string option"


text \<open>
  The dictionaries built by the extractors of \<open>news_extractor.py\<close>. Later stages add keys
  (content, author, the analysis); the functions below are written over the record scheme,
  so they apply to the extended records as well.
\<close>

record article =
  title :: string
  summary :: string
  url :: string
  source :: string
  category :: string
  extracted_at :: string
  extraction_method :: string

text \<open>
  An article after \<open>curate_articles\<close> has stored the analysis and the final score in it.
  The score is a float in the source; it is half an integer between 2 and 20, which a
  float holds exactly, so it is a \<open>real\<close> here.
\<close>

record curated_article = article +
  llm_analysis :: analysis
  final_score :: real

section \<open>Deduplication (news\_extractor.py)\<close>

text \<open>
  \<open>extract_from_website\<close>, the loop over the merged results of the fetch chain:
  \<^verbatim>\<open>
  seen_urls = set()
  unique_articles = []
  for article in articles:
      if article.get('url') and article['url'] not in seen_urls:
          seen_urls.add(article['url'])
          unique_articles.append(article)
  \<close>
  A missing \<open>url\<close> key and an empty URL are both falsy; the record has the empty string
  for them.
\<close>

fun url_dedup_from :: "string set \<Rightarrow> ('a article_scheme) list \<Rightarrow> ('a article_scheme) list" where
  "url_dedup_from seen_urls [] = []"
| "url_dedup_from seen_urls (a # rest) =
     (if url a \<noteq> [] \<and> url a \<notin> seen_urls
      then a # url_dedup_from (insert (url a) seen_urls) rest
      else url_dedup_from seen_urls rest)"

definition url_dedup :: "('a article_scheme) list \<Rightarrow> ('a article_scheme) list" where
  "url_dedup articles = url_dedup_from {} articles"

text \<open>
  \<open>extract_multiple_sources\<close>, the loop over the articles of one source:
  \<^verbatim>\<open>
  seen_titles = set()
  unique_articles = []
  for article in articles:
      title_lower = article['title'].lower()
      if title_lower not in seen_titles and len(title_lower) > 15:
          seen_titles.add(title_lower)
          unique_articles.append(article)
  \<close>
\<close>

fun title_dedup_from :: "string set \<Rightarrow> ('a article_scheme) list \<Rightarrow> ('a article_scheme) list" where
  "title_dedup_from seen_titles [] = []"
| "title_dedup_from seen_titles (a # rest) =
     (let title_lower = py_lower (title a)
      in if title_lower \<notin> seen_titles \<and> length title_lower > 15
         then a # title_dedup_from (insert title_lower seen_titles) rest
         else title_dedup_from seen_titles rest)"

definition title_dedup :: "('a article_scheme) list \<Rightarrow> ('a article_scheme) list" where
  "title_dedup articles = title_dedup_from {} articles"

section \<open>Quality curation (llm\_test.py)\<close>

definition parse_score :: "string \<Rightarrow> py_error + int" where
  \<comment> \<open>\<open>int(line.split(':')[1].split('/')[0].strip())\<close>\<close>
  "parse_score line =
     (case item (split_on CHR '':'' line) 1 of
        Inl e \<Rightarrow> Inl e
      | Inr v \<Rightarrow>
          (case item (split_on CHR ''/'' v) 0 of
             Inl e \<Rightarrow> Inl e
           | Inr w \<Rightarrow> py_int (py_strip w)))"

definition field_value :: "string \<Rightarrow> py_error + string" where
  \<comment> \<open>\<open>line.split(':', 1)[1].strip()\<close>\<close>
  "field_value line =
     (case item (split_once CHR '':'' line) 1 of
        Inl e \<Rightarrow> Inl e
      | Inr v \<Rightarrow> Inr (py_strip v))"

definition parse_line :: "analysis \<Rightarrow> string \<Rightarrow> py_error + analysis" where
  \<comment> \<open>the body of the loop of \<open>_parse_quality_analysis\<close>. The inner \<open>try\<close> of the two
      numeric fields swallows every exception (\<open>except: pass\<close>); an exception in the
      other three branches leaves the loop.\<close>
  "parse_line result line0 =
     (let line = py_strip line0 in
      if startswith line ''Quality:'' then
        (case parse_score line of
           Inr score \<Rightarrow> Inr (result\<lparr>quality_score := max 1 (min 10 score)\<rparr>)
         | Inl e \<Rightarrow> Inr result)
      else if startswith line ''Relevance:'' then
        (case parse_score line of
           Inr score \<Rightarrow> Inr (result\<lparr>relevance_score := max 1 (min 10 score)\<rparr>)
         | Inl e \<Rightarrow> Inr result)
      else if startswith line ''Category:'' then
        (case field_value line of
           Inr v \<Rightarrow> Inr (result\<lparr>analysis.category := v\<rparr>)
         | Inl e \<Rightarrow> Inl e)
      else if startswith line ''Insights:'' then
        (case field_value line of
           Inr v \<Rightarrow> Inr (result\<lparr>analysis.insights := [v]\<rparr>)
         | Inl e \<Rightarrow> Inl e)
      else if startswith line ''Reason:'' then
        (case field_value line of
           Inr v \<Rightarrow> Inr (result\<lparr>analysis.reason := v\<rparr>)
         | Inl e \<Rightarrow> Inl e)
      else Inr result)"

fun parse_lines :: "analysis \<Rightarrow> string list \<Rightarrow> py_error + analysis" where
  \<comment> \<open>\<open>for line in lines: ...\<close>\<close>
  "parse_lines result [] = Inr result"
| "parse_lines result (line # lines) =
     (case parse_line result line of
        Inl e \<Rightarrow> Inl e
      | Inr result' \<Rightarrow> parse_lines result' lines)"

definition reply_lines :: "string \<Rightarrow> string list" where
  \<comment> \<open>\<open>lines = response.strip().split('\n')\<close>\<close>
  "reply_lines response = split_on CHR ''\<newline>'' (py_strip response)"

definition initial_result :: "string \<Rightarrow> analysis" where
  "initial_result response =
     \<lparr>quality_score = 5, relevance_score = 5, analysis.category = ''AI/ML'',
      insights = [], reason = [], analysis.llm_analysis = True,
      raw_response = Some response\<rparr>"

definition parsing_error_result :: analysis where
  \<comment> \<open>the dictionary of the outer \<open>except\<close>\<close>
  "parsing_error_result =
     \<lparr>quality_score = 5, relevance_score = 5, analysis.category = ''AI/ML'',
      insights = [''Parsing error''], reason = ''Failed to parse LLM response'',
      analysis.llm_analysis = False, raw_response = None\<rparr>"

definition parse_quality_analysis :: "string \<Rightarrow> 'a article_scheme \<Rightarrow> analysis" where
  \<comment> \<open>\<open>_parse_quality_analysis(response, article)\<close>; the article is not used\<close>
  "parse_quality_analysis response article =
     (case parse_lines (initial_result response) (reply_lines response) of
        Inr result \<Rightarrow> result
      | Inl e \<Rightarrow> parsing_error_result)"

definition quality_prompt :: "'a article_scheme \<Rightarrow> string" where
  \<comment> \<open>the f-string of \<open>analyze_article_quality\<close>\<close>
  "quality_prompt article =
     ''\<newline>Analyze this AI news article and provide a quality assessment:\<newline>\<newline>''
     @ ''Title: '' @ title article @ ''\<newline>''
     @ ''Summary: '' @ summary article @ ''\<newline>''
     @ ''Source: '' @ source article @ ''\<newline>\<newline>''
     @ ''Please evaluate on a scale of 1-10 and provide:\<newline>''
     @ ''1. Quality Score (1-10): Overall quality and value\<newline>''
     @ ''2. Relevance Score (1-10): How relevant to AI professionals\<newline>''
     @ ''3. Category: Research/Industry/Tools/Business/Tutorial\<newline>''
     @ ''4. Key Insights: 2-3 main takeaways\<newline>''
     @ ''5. Reason: Brief explanation of the scores\<newline>\<newline>''
     @ ''Format your response as:\<newline>''
     @ ''Quality: X/10\<newline>''
     @ ''Relevance: X/10\<newline>''
     @ ''Category: [Category]\<newline>''
     @ ''Insights: [Key insights]\<newline>''
     @ ''Reason: [Brief explanation]\<newline>''"

definition fallback_result :: analysis where
  \<comment> \<open>the "Fallback scoring" dictionary of \<open>analyze_article_quality\<close>\<close>
  "fallback_result =
     \<lparr>quality_score = 5, relevance_score = 5, analysis.category = ''AI/ML'',
      insights = [''Unable to analyze with LLM''], reason = ''LLM analysis failed'',
      analysis.llm_analysis = False, raw_response = None\<rparr>"

text \<open>
  \<open>generate_response\<close> calls the generation service and returns its reply, or \<open>None\<close>
  when the service is unavailable, the model is missing, the status is not 200 or the
  request raises. It is a parameter here: a function from the prompt to the reply.
  \<open>if response:\<close> is false for \<open>None\<close> and for the empty reply.
\<close>

definition analyze_article_quality ::
    "(string \<Rightarrow> string option) \<Rightarrow> 'a article_scheme \<Rightarrow> analysis" where
  "analyze_article_quality generate_response article =
     (case generate_response (quality_prompt article) of
        None \<Rightarrow> fallback_result
      | Some response \<Rightarrow>
          if response \<noteq> [] then parse_quality_analysis response article
          else fallback_result)"

definition score_article :: "(string \<Rightarrow> string option) \<Rightarrow> article \<Rightarrow> curated_article" where
  \<comment> \<open>one round of the loop of \<open>curate_articles\<close>:
      \<open>article['llm_analysis'] = analysis\<close> and
      \<open>article['final_score'] = (analysis['quality_score'] + analysis['relevance_score']) / 2\<close>\<close>
  "score_article generate_response article =
     (let an = analyze_article_quality generate_response article
      in article.extend article
           \<lparr>llm_analysis = an,
            final_score = real_of_int (quality_score an + relevance_score an) / 2\<rparr>)"

text \<open>
  The service may answer the same prompt differently each time, so \<open>curate_articles\<close>
  takes one reply function per call: \<open>generate i\<close> answers the call made for the article
  at index \<open>i\<close>. The input list holds distinct dictionaries, as the extractors build them.
\<close>

definition scored_articles ::
    "(nat \<Rightarrow> string \<Rightarrow> string option) \<Rightarrow> article list \<Rightarrow> curated_article list" where
  \<comment> \<open>\<open>curated_articles\<close> when the loop ends, before the sort\<close>
  "scored_articles generate articles =
     map (\<lambda>(i, article). score_article (generate i) article) (enumerate 0 articles)"

definition curate_articles ::
    "(nat \<Rightarrow> string \<Rightarrow> string option) \<Rightarrow> article list \<Rightarrow> curated_article list" where
  "curate_articles generate articles =
     (if articles = [] then []
      else sorted_desc final_score (scored_articles generate articles))"

definition select_top_articles ::
    "(nat \<Rightarrow> string \<Rightarrow> string option) \<Rightarrow> article list \<Rightarrow> int \<Rightarrow> curated_article list" where
  "select_top_articles generate articles count =
     (let curated = curate_articles generate articles;
          high_quality = filter (\<lambda>art. final_score art \<ge> 6) curated
      in slice_to high_quality count)"

section \<open>Trend detection (chroma\_db.py)\<close>

definition ai_terms :: "string list" where
  "ai_terms =
     [''GPT'', ''LLM'', ''Large Language Model'', ''ChatGPT'', ''OpenAI'',
      ''machine learning'', ''deep learning'', ''neural network'',
      ''transformer'', ''AI model'', ''artificial intelligence'',
      ''computer vision'', ''natural language processing'', ''NLP'']"

definition total_text :: "('a article_scheme) list \<Rightarrow> string" where
  \<comment> \<open>the first loop: \<open>total_text += article_text + " "\<close> with
      \<open>article_text = f"{title} {summary}".lower()\<close>\<close>
  "total_text articles =
     concat (map (\<lambda>article. py_lower (title article @ '' '' @ summary article) @ '' '') articles)"

definition term_count :: "('a article_scheme) list \<Rightarrow> string \<Rightarrow> nat" where
  \<comment> \<open>\<open>total_text.lower().count(term.lower())\<close>\<close>
  "term_count articles term = py_count (py_lower (total_text articles)) (py_lower term)"

definition term_counts :: "('a article_scheme) list \<Rightarrow> (string \<times> nat) list" where
  \<comment> \<open>the dictionary \<open>term_counts\<close>, as its items in insertion order: the terms are
      distinct, so no key is stored twice\<close>
  "term_counts articles =
     filter (\<lambda>(term, count). count \<ge> 2) (map (\<lambda>term. (term, term_count articles term)) ai_terms)"

definition trend_line :: "string \<times> nat \<Rightarrow> string" where
  \<comment> \<open>\<open>f"{term} developments (mentioned {count} times)"\<close>\<close>
  "trend_line = (\<lambda>(term, count).
     term @ '' developments (mentioned '' @ str_nat count @ '' times)'')"

definition detect_trends :: "('a article_scheme) list \<Rightarrow> string list" where
  "detect_trends articles =
     (if articles = [] then []
      else map trend_line (take 3 (sorted_desc snd (term_counts articles))))"

section \<open>Body text extraction (enhanced\_content\_fetcher.py)\<close>

text \<open>
  The parsed document: text nodes, and tags with their name, their classes and their
  children. A document is the list of its top-level nodes.
\<close>

datatype node = Text string | Element string "string list" "node list"

fun elements :: "node \<Rightarrow> node list" where
  \<comment> \<open>a tag and the tags below it, in document order\<close>
  "elements (Text s) = []"
| "elements (Element name classes children) =
     Element name classes children # concat (map elements children)"

definition soup_elements :: "node list \<Rightarrow> node list" where
  "soup_elements soup = concat (map elements soup)"

fun strings :: "node \<Rightarrow> string list" where
  \<comment> \<open>the text nodes below a tag, in document order\<close>
  "strings (Text s) = [s]"
| "strings (Element name classes children) = concat (map strings children)"

definition get_text :: "string \<Rightarrow> node \<Rightarrow> string" where
  \<comment> \<open>\<open>elem.get_text(separator=separator, strip=True)\<close>: every string is stripped, the
      empty ones are left out, the rest is joined\<close>
  "get_text separator elem =
     py_join separator (filter (\<lambda>s. s \<noteq> []) (map py_strip (strings elem)))"

datatype selector = Tag string | Class string

fun matches :: "selector \<Rightarrow> node \<Rightarrow> bool" where
  "matches sel (Text s) = False"
| "matches (Tag t) (Element name classes children) = (name = t)"
| "matches (Class c) (Element name classes children) = (c \<in> set classes)"

definition select_one :: "selector \<Rightarrow> node list \<Rightarrow> node option" where
  \<comment> \<open>\<open>soup.select_one(selector)\<close>: the first match in document order\<close>
  "select_one sel soup = find (matches sel) (soup_elements soup)"

definition find_all :: "string list \<Rightarrow> node list \<Rightarrow> node list" where
  \<comment> \<open>\<open>soup.find_all(names)\<close>\<close>
  "find_all names soup = filter (\<lambda>e. \<exists>t \<in> set names. matches (Tag t) e) (soup_elements soup)"

definition content_selectors :: "selector list" where
  "content_selectors =
     [Tag ''article'', Class ''article-content'', Class ''post-content'',
      Class ''entry-content'', Class ''content'', Class ''main-content'', Tag ''main'',
      Class ''story-body'', Class ''article-body'', Class ''post-body'']"

fun first_substantial :: "selector list \<Rightarrow> node list \<Rightarrow> string option" where
  \<comment> \<open>Strategy 1: the loop over the selectors; a tag is always truthy\<close>
  "first_substantial [] soup = None"
| "first_substantial (sel # sels) soup =
     (case select_one sel soup of
        None \<Rightarrow> first_substantial sels soup
      | Some content_elem \<Rightarrow>
          (let text = get_text '' '' content_elem
           in if length text > 200 then Some text else first_substantial sels soup))"

definition full_text :: "node list \<Rightarrow> string" where
  \<comment> \<open>Strategy 2: the texts longer than 50 characters of all \<open>p\<close> and \<open>div\<close> tags, joined\<close>
  "full_text soup =
     py_join '' '' (filter (\<lambda>text. length text > 50) (map (get_text []) (find_all [''p'', ''div''] soup)))"

definition para_text :: "node list \<Rightarrow> string" where
  \<comment> \<open>Strategy 3: the texts of all \<open>p\<close> tags, joined\<close>
  "para_text soup = py_join '' '' (map (get_text []) (find_all [''p''] soup))"

text \<open>
  \<open>_extract_article_text\<close> has four exits. The model returns, next to the string, the
  exit that produced it; the Python function returns the string.
\<close>

datatype return_site = Container | TextBlocks | Paragraphs | Sentinel

definition extract_article_text_at :: "node list \<Rightarrow> return_site \<times> string" where
  "extract_article_text_at soup =
     (case first_substantial content_selectors soup of
        Some text \<Rightarrow> (Container, text)
      | None \<Rightarrow>
          if length (full_text soup) > 200 then (TextBlocks, full_text soup)
          else if para_text soup \<noteq> [] then (Paragraphs, para_text soup)
          else (Sentinel, ''No content extracted''))"

definition extract_article_text :: "node list \<Rightarrow> string" where
  "extract_article_text soup = snd (extract_article_text_at soup)"

section \<open>Example inputs\<close>

definition candidate :: "string \<Rightarrow> string \<Rightarrow> article" where
  \<comment> \<open>a candidate as \<open>extract_from_website_basic\<close> builds it\<close>
  "candidate t u =
     \<lparr>title = t, summary = [], url = u, source = ''kdnuggets'', category = ''AI/ML'',
      extracted_at = ''2025-01-01T00:00:00'', extraction_method = ''basic''\<rparr>"

definition example_candidates :: "article list" where
  "example_candidates =
     [candidate ''OpenAI releases a new reasoning model'' ''https://example.org/a'',
      candidate ''Five tools for data pipelines'' ''https://example.org/b'',
      candidate ''OPENAI RELEASES A NEW REASONING MODEL'' ''https://example.org/a'',
      candidate ''Read more'' ''https://example.org/c'']"

definition garbage_reply :: string where
  "garbage_reply = ''I am sorry, I cannot rate this.\<newline>Quality: 12/10\<newline>relevance: 9\<newline>Relevance: very high''"

definition chatty_reply :: string where
  "chatty_reply = ''This article looks fine to me.\<newline>quality: 9/10\<newline>RELEVANCE: 9/10''"

definition repeated_reply :: string where
  "repeated_reply = ''Quality: 8/10\<newline>Category: Tools\<newline>Quality: n/a\<newline>Category: Research''"

definition example_generate :: "nat \<Rightarrow> string \<Rightarrow> string option" where
  "example_generate i prompt =
     (if i = 0 then Some ''Quality: 7/10\<newline>Relevance: 7/10\<newline>Category: Research''
      else if i = 1 then None
      else if i = 2 then Some ''Quality: 9/10\<newline>Relevance: 6/10''
      else Some ''Quality: 6\<newline>Relevance: 8\<newline>Reason: short'')"

definition gpt_corpus :: "article list" where
  \<comment> \<open>"GPT" three times, in three spellings, across two articles; "NLP" once\<close>
  "gpt_corpus =
     [\<lparr>title = ''gpt gets a faster tokenizer'', summary = ''The new Gpt release cuts latency'',
       url = ''https://example.org/gpt'', source = ''kdnuggets'', category = ''AI/ML'',
       extracted_at = ''2025-01-01T00:00:00'', extraction_method = ''rss''\<rparr>,
      \<lparr>title = ''What nlp teams can learn from GPT'', summary = ''A field report'',
       url = ''https://example.org/nlp'', source = ''kdnuggets'', category = ''AI/ML'',
       extracted_at = ''2025-01-01T00:00:00'', extraction_method = ''rss''\<rparr>]"

definition sixty_chars :: string where
  "sixty_chars = ''This paragraph has exactly sixty characters in its text, ok.''"

section \<open>Properties of the URL pass\<close>

lemma url_dedup_from_subseq: "subseq (url_dedup_from seen xs) xs"
  by (induction xs arbitrary: seen) auto

lemma url_dedup_from_keys:
  "a \<in> set (url_dedup_from seen xs) \<Longrightarrow> url a \<notin> seen \<and> url a \<noteq> []"
  by (induction xs arbitrary: seen) (auto split: if_splits)

lemma url_dedup_from_distinct: "distinct (map url (url_dedup_from seen xs))"
proof (induction xs arbitrary: seen)
  case Nil
  show ?case by simp
next
  case (Cons x xs)
  have "url x \<notin> url ` set (url_dedup_from (insert (url x) seen) xs)"
  proof
    assume "url x \<in> url ` set (url_dedup_from (insert (url x) seen) xs)"
    then obtain b where "b \<in> set (url_dedup_from (insert (url x) seen) xs)" "url b = url x"
      by auto
    with url_dedup_from_keys [of b "insert (url x) seen" xs] show False by simp
  qed
  with Cons show ?case by simp
qed

lemma url_dedup_from_find:
  "u \<notin> seen \<Longrightarrow> u \<noteq> [] \<Longrightarrow>
   find (\<lambda>b. url b = u) (url_dedup_from seen xs) = find (\<lambda>b. url b = u) xs"
  by (induction xs arbitrary: seen) auto

text \<open>
  Claim C4. For every list of candidates with non-empty URLs, the URL pass returns a
  subsequence of its input (so no longer than the input, in input order) in which no two
  elements have the same URL, and for each URL the element kept is the first one of the
  input with that URL.
\<close>

theorem url_dedup_first_occurrence:
  "(\<forall>a \<in> set articles. url a \<noteq> []) \<Longrightarrow>
     subseq (url_dedup articles) articles
   \<and> length (url_dedup articles) \<le> length articles
   \<and> distinct (map url (url_dedup articles))
   \<and> url ` set (url_dedup articles) = url ` set articles
   \<and> (\<forall>a \<in> set articles.
        find (\<lambda>b. url b = url a) (url_dedup articles) = find (\<lambda>b. url b = url a) articles)"
proof -
  assume nonempty: "\<forall>a \<in> set articles. url a \<noteq> []"
  have sub: "subseq (url_dedup articles) articles"
    by (simp add: url_dedup_def url_dedup_from_subseq)
  have len: "length (url_dedup articles) \<le> length articles"
    using sub by (rule list_emb_length)
  have dist: "distinct (map url (url_dedup articles))"
    by (simp add: url_dedup_def url_dedup_from_distinct)
  have first: "find (\<lambda>b. url b = url a) (url_dedup articles) = find (\<lambda>b. url b = url a) articles"
    if "a \<in> set articles" for a
    using that nonempty by (simp add: url_dedup_def url_dedup_from_find)
  have "url ` set (url_dedup articles) = url ` set articles"
  proof
    show "url ` set (url_dedup articles) \<subseteq> url ` set articles"
      using sub by (auto dest: list_emb_set)
    show "url ` set articles \<subseteq> url ` set (url_dedup articles)"
    proof
      fix u assume "u \<in> url ` set articles"
      then obtain a where a: "a \<in> set articles" "u = url a" by auto
      then have "find (\<lambda>b. url b = url a) articles \<noteq> None"
        by (auto simp: find_None_iff)
      with first [OF a(1)] have "find (\<lambda>b. url b = url a) (url_dedup articles) \<noteq> None"
        by simp
      then obtain b where "find (\<lambda>b. url b = url a) (url_dedup articles) = Some b"
        by auto
      then have "b \<in> set (url_dedup articles)" "url b = url a"
        by (auto simp: find_Some_iff)
      then show "u \<in> url ` set (url_dedup articles)"
        unfolding a(2) by (metis imageI)
    qed
  qed
  with sub len dist first show ?thesis by blast
qed

theorem url_dedup_first_occurrence_witness:
  "url_dedup example_candidates = [example_candidates ! 0, example_candidates ! 1, example_candidates ! 3]
   \<and> distinct (map url (url_dedup example_candidates))
   \<and> subseq (url_dedup example_candidates) example_candidates"
proof -
  have h: "\<forall>a \<in> set example_candidates. url a \<noteq> []"
    by code_simp
  have "url_dedup example_candidates
        = [example_candidates ! 0, example_candidates ! 1, example_candidates ! 3]"
    by code_simp
  with url_dedup_first_occurrence [OF h] show ?thesis by simp
qed

section \<open>Properties of the title pass\<close>

lemma title_dedup_from_subseq: "subseq (title_dedup_from seen xs) xs"
  by (induction xs arbitrary: seen) (auto simp: Let_def)

lemma title_dedup_from_keys:
  "a \<in> set (title_dedup_from seen xs) \<Longrightarrow>
   py_lower (title a) \<notin> seen \<and> 15 < length (py_lower (title a))"
  by (induction xs arbitrary: seen) (auto simp: Let_def split: if_splits)

lemma title_dedup_from_distinct:
  "distinct (map (\<lambda>a. py_lower (title a)) (title_dedup_from seen xs))"
proof (induction xs arbitrary: seen)
  case Nil
  show ?case by simp
next
  case (Cons x xs)
  let ?k = "py_lower (title x)"
  have "?k \<notin> (\<lambda>a. py_lower (title a)) ` set (title_dedup_from (insert ?k seen) xs)"
  proof
    assume "?k \<in> (\<lambda>a. py_lower (title a)) ` set (title_dedup_from (insert ?k seen) xs)"
    then obtain b where "b \<in> set (title_dedup_from (insert ?k seen) xs)"
      "py_lower (title b) = ?k"
      by auto
    with title_dedup_from_keys [of b "insert ?k seen" xs] show False by simp
  qed
  with Cons show ?case by (simp add: Let_def)
qed

lemma title_dedup_from_find:
  "k \<notin> seen \<Longrightarrow> 15 < length k \<Longrightarrow>
   find (\<lambda>b. py_lower (title b) = k) (title_dedup_from seen xs)
   = find (\<lambda>b. py_lower (title b) = k) xs"
  by (induction xs arbitrary: seen) (auto simp: Let_def)

lemma title_dedup_from_idem:
  "title_dedup_from seen (title_dedup_from seen xs) = title_dedup_from seen xs"
  by (induction xs arbitrary: seen) (auto simp: Let_def)

text \<open>
  Claim C5, as the code has it. The claim says that an article whose title has at most 15
  characters is kept as it is; the guard \<open>len(title_lower) > 15\<close> of the loop drops it.
\<close>

theorem title_dedup_short_title_counterexample:
  "length (title (candidate ''Read more'' ''https://example.org/c'')) \<le> 15
   \<and> length (py_lower (title (candidate ''Read more'' ''https://example.org/c''))) \<le> 15
   \<and> title_dedup [candidate ''Read more'' ''https://example.org/c''] = []"
  by code_simp

text \<open>
  Claim C5, amended. The length that the loop tests is that of the lower-cased title,
  \<open>len(title.lower())\<close>. For every input list, the title pass returns a subsequence of
  its input; it keeps no article whose lower-cased title has at most 15 characters; no two
  articles of the output have the same lower-cased title; and for each lower-cased title
  of more than 15 characters the article kept is the first one of the input with it.
\<close>

theorem title_dedup_long_titles_first_occurrence:
  "subseq (title_dedup articles) articles
   \<and> (\<forall>a \<in> set (title_dedup articles). 15 < length (py_lower (title a)))
   \<and> (\<forall>a \<in> set articles.
        length (py_lower (title a)) \<le> 15 \<longrightarrow> a \<notin> set (title_dedup articles))
   \<and> distinct (map (\<lambda>a. py_lower (title a)) (title_dedup articles))
   \<and> (\<forall>a \<in> set articles. 15 < length (py_lower (title a)) \<longrightarrow>
        find (\<lambda>b. py_lower (title b) = py_lower (title a)) (title_dedup articles)
        = find (\<lambda>b. py_lower (title b) = py_lower (title a)) articles)"
proof -
  have sub: "subseq (title_dedup articles) articles"
    by (simp add: title_dedup_def title_dedup_from_subseq)
  have long: "\<forall>a \<in> set (title_dedup articles). 15 < length (py_lower (title a))"
    using title_dedup_from_keys [of _ "{}" articles]
    by (simp add: title_dedup_def)
  have short: "\<forall>a \<in> set articles.
        length (py_lower (title a)) \<le> 15 \<longrightarrow> a \<notin> set (title_dedup articles)"
  proof (intro ballI impI notI)
    fix a
    assume "length (py_lower (title a)) \<le> 15" "a \<in> set (title_dedup articles)"
    with long show False by force
  qed
  have dist: "distinct (map (\<lambda>a. py_lower (title a)) (title_dedup articles))"
    by (simp add: title_dedup_def title_dedup_from_distinct)
  have first: "\<forall>a \<in> set articles. 15 < length (py_lower (title a)) \<longrightarrow>
        find (\<lambda>b. py_lower (title b) = py_lower (title a)) (title_dedup articles)
        = find (\<lambda>b. py_lower (title b) = py_lower (title a)) articles"
    by (simp add: title_dedup_def title_dedup_from_find)
  from sub long short dist first show ?thesis by (intro conjI)
qed

theorem title_dedup_long_titles_first_occurrence_witness:
  "title_dedup example_candidates = [example_candidates ! 0, example_candidates ! 1]
   \<and> length (py_lower (title (example_candidates ! 3))) = 9
   \<and> distinct (map (\<lambda>a. py_lower (title a)) (title_dedup example_candidates))
   \<and> subseq (title_dedup example_candidates) example_candidates"
proof -
  have 1: "title_dedup example_candidates = [example_candidates ! 0, example_candidates ! 1]"
    by code_simp
  have 2: "length (py_lower (title (example_candidates ! 3))) = 9"
    by code_simp
  from title_dedup_long_titles_first_occurrence [of example_candidates]
  have 3: "distinct (map (\<lambda>a. py_lower (title a)) (title_dedup example_candidates))"
    by (elim conjE)
  from title_dedup_long_titles_first_occurrence [of example_candidates]
  have 4: "subseq (title_dedup example_candidates) example_candidates"
    by (elim conjE)
  from 1 2 3 4 show ?thesis by (intro conjI)
qed

text \<open>
  Claim C9. The title pass is idempotent: applied to its own output it returns that
  output, for every input list.
\<close>

theorem title_dedup_idempotent:
  "title_dedup (title_dedup articles) = title_dedup articles"
  by (simp add: title_dedup_def title_dedup_from_idem)

theorem title_dedup_idempotent_witness:
  "title_dedup (title_dedup example_candidates) = [example_candidates ! 0, example_candidates ! 1]"
proof -
  have "title_dedup example_candidates = [example_candidates ! 0, example_candidates ! 1]"
    by code_simp
  with title_dedup_idempotent [of example_candidates] show ?thesis by simp
qed

section \<open>The reply parser, line by line\<close>

lemma startswith_exclusive:
  "startswith s ''Relevance:'' \<Longrightarrow> \<not> startswith s ''Quality:''"
  "startswith s ''Category:'' \<Longrightarrow> \<not> startswith s ''Quality:'' \<and> \<not> startswith s ''Relevance:''"
  "startswith s ''Insights:'' \<Longrightarrow>
     \<not> startswith s ''Quality:'' \<and> \<not> startswith s ''Relevance:'' \<and> \<not> startswith s ''Category:''"
  "startswith s ''Reason:'' \<Longrightarrow>
     \<not> startswith s ''Quality:'' \<and> \<not> startswith s ''Relevance:'' \<and> \<not> startswith s ''Category:''
     \<and> \<not> startswith s ''Insights:''"
  by (auto simp: startswith_def prefix_def)

lemma field_value_after_colon:
  "field_value (p @ CHR '':'' # rest) = Inr (py_strip rest)" if "CHR '':'' \<notin> set p"
  using that
  by (simp add: field_value_def split_once_def item_def takeWhile_append1 dropWhile_append3
      takeWhile_tail dropWhile_append)

lemma field_value_Category:
  "startswith s ''Category:'' \<Longrightarrow> field_value s = Inr (py_strip (drop 9 s))"
  using field_value_after_colon [of "''Category''"]
  by (auto simp: startswith_def prefix_def)

lemma field_value_Insights:
  "startswith s ''Insights:'' \<Longrightarrow> field_value s = Inr (py_strip (drop 9 s))"
  using field_value_after_colon [of "''Insights''"]
  by (auto simp: startswith_def prefix_def)

lemma field_value_Reason:
  "startswith s ''Reason:'' \<Longrightarrow> field_value s = Inr (py_strip (drop 7 s))"
  using field_value_after_colon [of "''Reason''"]
  by (auto simp: startswith_def prefix_def)

lemma parse_line_Quality:
  "startswith (py_strip l) ''Quality:'' \<Longrightarrow>
   parse_line r l =
     (case parse_score (py_strip l) of
        Inr score \<Rightarrow> Inr (r\<lparr>quality_score := max 1 (min 10 score)\<rparr>)
      | Inl e \<Rightarrow> Inr r)"
  by (simp add: parse_line_def)

lemma parse_line_Relevance:
  "startswith (py_strip l) ''Relevance:'' \<Longrightarrow>
   parse_line r l =
     (case parse_score (py_strip l) of
        Inr score \<Rightarrow> Inr (r\<lparr>relevance_score := max 1 (min 10 score)\<rparr>)
      | Inl e \<Rightarrow> Inr r)"
  by (simp add: parse_line_def startswith_exclusive)

lemma parse_line_Category:
  "startswith (py_strip l) ''Category:'' \<Longrightarrow>
   parse_line r l = Inr (r\<lparr>analysis.category := py_strip (drop 9 (py_strip l))\<rparr>)"
  by (simp add: parse_line_def startswith_exclusive field_value_Category)

lemma parse_line_Insights:
  "startswith (py_strip l) ''Insights:'' \<Longrightarrow>
   parse_line r l = Inr (r\<lparr>analysis.insights := [py_strip (drop 9 (py_strip l))]\<rparr>)"
  by (simp add: parse_line_def startswith_exclusive field_value_Insights)

lemma parse_line_Reason:
  "startswith (py_strip l) ''Reason:'' \<Longrightarrow>
   parse_line r l = Inr (r\<lparr>analysis.reason := py_strip (drop 7 (py_strip l))\<rparr>)"
  by (simp add: parse_line_def startswith_exclusive field_value_Reason)

lemma parse_line_other:
  "\<not> startswith (py_strip l) ''Quality:'' \<Longrightarrow> \<not> startswith (py_strip l) ''Relevance:'' \<Longrightarrow>
   \<not> startswith (py_strip l) ''Category:'' \<Longrightarrow> \<not> startswith (py_strip l) ''Insights:'' \<Longrightarrow>
   \<not> startswith (py_strip l) ''Reason:'' \<Longrightarrow> parse_line r l = Inr r"
  by (simp add: parse_line_def)

lemma parse_line_total: "\<exists>r'. parse_line r l = Inr r'"
proof -
  let ?s = "py_strip l"
  consider "startswith ?s ''Quality:''" | "startswith ?s ''Relevance:''"
    | "startswith ?s ''Category:''" | "startswith ?s ''Insights:''" | "startswith ?s ''Reason:''"
    | "\<not> startswith ?s ''Quality:''" "\<not> startswith ?s ''Relevance:''"
      "\<not> startswith ?s ''Category:''" "\<not> startswith ?s ''Insights:''"
      "\<not> startswith ?s ''Reason:''"
    by blast
  then show ?thesis
  proof cases
    case 1 then show ?thesis by (simp add: parse_line_Quality split: sum.split)
  next
    case 2 then show ?thesis by (simp add: parse_line_Relevance split: sum.split)
  next
    case 3 then show ?thesis by (simp add: parse_line_Category)
  next
    case 4 then show ?thesis by (simp add: parse_line_Insights)
  next
    case 5 then show ?thesis by (simp add: parse_line_Reason)
  next
    case 6 then show ?thesis by (simp add: parse_line_other)
  qed
qed

lemma parse_lines_total: "\<exists>r'. parse_lines r ls = Inr r'"
proof (induction ls arbitrary: r)
  case Nil
  show ?case by simp
next
  case (Cons l ls)
  obtain r1 where "parse_line r l = Inr r1" using parse_line_total by blast
  with Cons [of r1] show ?case by simp
qed

lemma parse_lines_append:
  "parse_lines r (xs @ ys) =
     (case parse_lines r xs of Inl e \<Rightarrow> Inl e | Inr r' \<Rightarrow> parse_lines r' ys)"
  by (induction xs arbitrary: r) (auto split: sum.splits)

lemma parse_line_range:
  "parse_line r l = Inr r' \<Longrightarrow>
   1 \<le> quality_score r \<and> quality_score r \<le> 10 \<and> 1 \<le> relevance_score r \<and> relevance_score r \<le> 10 \<Longrightarrow>
   1 \<le> quality_score r' \<and> quality_score r' \<le> 10 \<and> 1 \<le> relevance_score r' \<and> relevance_score r' \<le> 10"
  by (auto simp: parse_line_def Let_def split: if_splits sum.splits)

lemma parse_lines_range:
  "parse_lines r ls = Inr r' \<Longrightarrow>
   1 \<le> quality_score r \<and> quality_score r \<le> 10 \<and> 1 \<le> relevance_score r \<and> relevance_score r \<le> 10 \<Longrightarrow>
   1 \<le> quality_score r' \<and> quality_score r' \<le> 10 \<and> 1 \<le> relevance_score r' \<and> relevance_score r' \<le> 10"
proof (induction ls arbitrary: r)
  case Nil
  then show ?case by simp
next
  case (Cons l ls)
  obtain r1 where r1: "parse_line r l = Inr r1" using parse_line_total by blast
  with Cons.prems(1) have "parse_lines r1 ls = Inr r'" by simp
  moreover from parse_line_range [OF r1 Cons.prems(2)]
  have "1 \<le> quality_score r1 \<and> quality_score r1 \<le> 10 \<and> 1 \<le> relevance_score r1 \<and> relevance_score r1 \<le> 10" .
  ultimately show ?case by (rule Cons.IH)
qed

lemma parse_line_quality_frame:
  "parse_line r l = Inr r' \<Longrightarrow>
   startswith (py_strip l) ''Quality:'' \<longrightarrow> isl (parse_score (py_strip l)) \<Longrightarrow>
   quality_score r' = quality_score r"
  by (auto simp: parse_line_def Let_def split: if_splits sum.splits)

lemma parse_line_relevance_frame:
  "parse_line r l = Inr r' \<Longrightarrow>
   startswith (py_strip l) ''Relevance:'' \<longrightarrow> isl (parse_score (py_strip l)) \<Longrightarrow>
   relevance_score r' = relevance_score r"
  by (auto simp: parse_line_def Let_def split: if_splits sum.splits)

lemma parse_line_category_frame:
  "parse_line r l = Inr r' \<Longrightarrow> \<not> startswith (py_strip l) ''Category:'' \<Longrightarrow>
   analysis.category r' = analysis.category r"
  by (auto simp: parse_line_def Let_def split: if_splits sum.splits)

lemma parse_line_insights_frame:
  "parse_line r l = Inr r' \<Longrightarrow> \<not> startswith (py_strip l) ''Insights:'' \<Longrightarrow>
   analysis.insights r' = analysis.insights r"
  by (auto simp: parse_line_def Let_def split: if_splits sum.splits)

lemma parse_line_reason_frame:
  "parse_line r l = Inr r' \<Longrightarrow> \<not> startswith (py_strip l) ''Reason:'' \<Longrightarrow>
   analysis.reason r' = analysis.reason r"
  by (auto simp: parse_line_def Let_def split: if_splits sum.splits)

lemma parse_lines_frame:
  assumes step: "\<And>r r' l. parse_line r l = Inr r' \<Longrightarrow> quiet l \<Longrightarrow> f r' = f r"
  shows "parse_lines r ls = Inr r' \<Longrightarrow> \<forall>l \<in> set ls. quiet l \<Longrightarrow> f r' = f r"
proof (induction ls arbitrary: r)
  case Nil
  then show ?case by simp
next
  case (Cons l ls)
  obtain r1 where r1: "parse_line r l = Inr r1" using parse_line_total by blast
  with Cons.prems(1) have "parse_lines r1 ls = Inr r'" by simp
  with Cons.IH Cons.prems(2) have "f r' = f r1" by simp
  moreover have "f r1 = f r" using step [OF r1] Cons.prems(2) by simp
  ultimately show ?case by simp
qed

lemma parse_lines_last:
  assumes step: "\<And>r r' l. parse_line r l = Inr r' \<Longrightarrow> quiet l \<Longrightarrow> f r' = f r"
    and set: "\<And>r r'. parse_line r l = Inr r' \<Longrightarrow> f r' = v"
    and run: "parse_lines r (pre @ l # post) = Inr r'"
    and post: "\<forall>l' \<in> set post. quiet l'"
  shows "f r' = v"
proof -
  obtain r1 where r1: "parse_lines r pre = Inr r1" using parse_lines_total by blast
  obtain r2 where r2: "parse_line r1 l = Inr r2" using parse_line_total by blast
  from run r1 r2 have "parse_lines r2 post = Inr r'"
    by (simp add: parse_lines_append)
  from parse_lines_frame [of quiet f, OF step this post] have "f r' = f r2" .
  with set [OF r2] show ?thesis by simp
qed

section \<open>The reply parser, field by field\<close>

lemma initial_result_scores:
  "quality_score (initial_result response) = 5" "relevance_score (initial_result response) = 5"
  by (simp_all add: initial_result_def)

lemma parse_quality_analysis_Inr:
  "\<exists>r. parse_lines (initial_result response) (reply_lines response) = Inr r
       \<and> parse_quality_analysis response a = r"
  using parse_lines_total [of "initial_result response" "reply_lines response"]
  by (auto simp: parse_quality_analysis_def)

lemma parse_quality_analysis_range:
  "1 \<le> quality_score (parse_quality_analysis response a)
   \<and> quality_score (parse_quality_analysis response a) \<le> 10
   \<and> 1 \<le> relevance_score (parse_quality_analysis response a)
   \<and> relevance_score (parse_quality_analysis response a) \<le> 10"
proof -
  obtain r where r: "parse_lines (initial_result response) (reply_lines response) = Inr r"
    "parse_quality_analysis response a = r"
    using parse_quality_analysis_Inr by blast
  from parse_lines_range [OF r(1)] show ?thesis
    by (simp add: r(2) initial_result_scores)
qed

lemma quality_default:
  assumes "\<forall>l \<in> set (reply_lines response).
             startswith (py_strip l) ''Quality:'' \<longrightarrow> isl (parse_score (py_strip l))"
  shows "quality_score (parse_quality_analysis response a) = 5"
proof -
  obtain r where r: "parse_lines (initial_result response) (reply_lines response) = Inr r"
    "parse_quality_analysis response a = r"
    using parse_quality_analysis_Inr by blast
  have "quality_score r = quality_score (initial_result response)"
    by (rule parse_lines_frame [where quiet = "\<lambda>l. startswith (py_strip l) ''Quality:'' \<longrightarrow> isl (parse_score (py_strip l))",
          OF parse_line_quality_frame r(1) assms])
  then show ?thesis by (simp add: r(2) initial_result_scores)
qed

lemma relevance_default:
  assumes "\<forall>l \<in> set (reply_lines response).
             startswith (py_strip l) ''Relevance:'' \<longrightarrow> isl (parse_score (py_strip l))"
  shows "relevance_score (parse_quality_analysis response a) = 5"
proof -
  obtain r where r: "parse_lines (initial_result response) (reply_lines response) = Inr r"
    "parse_quality_analysis response a = r"
    using parse_quality_analysis_Inr by blast
  have "relevance_score r = relevance_score (initial_result response)"
    by (rule parse_lines_frame [where quiet = "\<lambda>l. startswith (py_strip l) ''Relevance:'' \<longrightarrow> isl (parse_score (py_strip l))",
          OF parse_line_relevance_frame r(1) assms])
  then show ?thesis by (simp add: r(2) initial_result_scores)
qed

lemma quality_last_parsed:
  assumes lines: "reply_lines response = pre @ l # post"
    and l: "startswith (py_strip l) ''Quality:''" "parse_score (py_strip l) = Inr n"
    and post: "\<forall>l' \<in> set post.
                 startswith (py_strip l') ''Quality:'' \<longrightarrow> isl (parse_score (py_strip l'))"
  shows "quality_score (parse_quality_analysis response a) = max 1 (min 10 n)"
proof -
  obtain r where r: "parse_lines (initial_result response) (reply_lines response) = Inr r"
    "parse_quality_analysis response a = r"
    using parse_quality_analysis_Inr by blast
  have "quality_score r = max 1 (min 10 n)"
  proof (rule parse_lines_last [where quiet = "\<lambda>l. startswith (py_strip l) ''Quality:'' \<longrightarrow> isl (parse_score (py_strip l))"
        and l = l and pre = pre and post = post and r = "initial_result response"])
    show "parse_lines (initial_result response) (pre @ l # post) = Inr r"
      using r(1) lines by simp
    show "\<forall>l' \<in> set post.
            startswith (py_strip l') ''Quality:'' \<longrightarrow> isl (parse_score (py_strip l'))"
      by (rule post)
    show "\<And>r0 r1. parse_line r0 l = Inr r1 \<Longrightarrow> quality_score r1 = max 1 (min 10 n)"
      using l by (auto simp: parse_line_Quality)
  qed (rule parse_line_quality_frame)
  then show ?thesis by (simp add: r(2))
qed

lemma relevance_last_parsed:
  assumes lines: "reply_lines response = pre @ l # post"
    and l: "startswith (py_strip l) ''Relevance:''" "parse_score (py_strip l) = Inr n"
    and post: "\<forall>l' \<in> set post.
                 startswith (py_strip l') ''Relevance:'' \<longrightarrow> isl (parse_score (py_strip l'))"
  shows "relevance_score (parse_quality_analysis response a) = max 1 (min 10 n)"
proof -
  obtain r where r: "parse_lines (initial_result response) (reply_lines response) = Inr r"
    "parse_quality_analysis response a = r"
    using parse_quality_analysis_Inr by blast
  have "relevance_score r = max 1 (min 10 n)"
  proof (rule parse_lines_last [where quiet = "\<lambda>l. startswith (py_strip l) ''Relevance:'' \<longrightarrow> isl (parse_score (py_strip l))"
        and l = l and pre = pre and post = post and r = "initial_result response"])
    show "parse_lines (initial_result response) (pre @ l # post) = Inr r"
      using r(1) lines by simp
    show "\<forall>l' \<in> set post.
            startswith (py_strip l') ''Relevance:'' \<longrightarrow> isl (parse_score (py_strip l'))"
      by (rule post)
    show "\<And>r0 r1. parse_line r0 l = Inr r1 \<Longrightarrow> relevance_score r1 = max 1 (min 10 n)"
      using l by (auto simp: parse_line_Relevance)
  qed (rule parse_line_relevance_frame)
  then show ?thesis by (simp add: r(2))
qed

lemma text_field_last:
  assumes lines: "reply_lines response = pre @ l # post"
    and step: "\<And>r r' l. parse_line r l = Inr r' \<Longrightarrow> \<not> startswith (py_strip l) p \<Longrightarrow> f r' = f r"
    and set: "\<And>r r'. parse_line r l = Inr r' \<Longrightarrow> f r' = v"
    and post: "\<forall>l' \<in> set post. \<not> startswith (py_strip l') p"
  shows "f (parse_quality_analysis response a) = v"
proof -
  obtain r where r: "parse_lines (initial_result response) (reply_lines response) = Inr r"
    "parse_quality_analysis response a = r"
    using parse_quality_analysis_Inr by blast
  have "f r = v"
  proof (rule parse_lines_last [where quiet = "\<lambda>l. \<not> startswith (py_strip l) p"
        and l = l and pre = pre and post = post and r = "initial_result response"])
    show "parse_lines (initial_result response) (pre @ l # post) = Inr r"
      using r(1) lines by simp
  qed (use step set post in auto)
  then show ?thesis by (simp add: r(2))
qed

lemma category_last:
  assumes "reply_lines response = pre @ l # post"
    and "startswith (py_strip l) ''Category:''"
    and "\<forall>l' \<in> set post. \<not> startswith (py_strip l') ''Category:''"
  shows "analysis.category (parse_quality_analysis response a) = py_strip (drop 9 (py_strip l))"
  using assms(1) _ _ assms(3)
proof (rule text_field_last)
  show "\<And>r r'. parse_line r l = Inr r' \<Longrightarrow> analysis.category r' = py_strip (drop 9 (py_strip l))"
    using assms(2) by (auto simp: parse_line_Category)
qed (rule parse_line_category_frame)

lemma insights_last:
  assumes "reply_lines response = pre @ l # post"
    and "startswith (py_strip l) ''Insights:''"
    and "\<forall>l' \<in> set post. \<not> startswith (py_strip l') ''Insights:''"
  shows "analysis.insights (parse_quality_analysis response a) = [py_strip (drop 9 (py_strip l))]"
  using assms(1) _ _ assms(3)
proof (rule text_field_last)
  show "\<And>r r'. parse_line r l = Inr r' \<Longrightarrow> analysis.insights r' = [py_strip (drop 9 (py_strip l))]"
    using assms(2) by (auto simp: parse_line_Insights)
qed (rule parse_line_insights_frame)

lemma reason_last:
  assumes "reply_lines response = pre @ l # post"
    and "startswith (py_strip l) ''Reason:''"
    and "\<forall>l' \<in> set post. \<not> startswith (py_strip l') ''Reason:''"
  shows "analysis.reason (parse_quality_analysis response a) = py_strip (drop 7 (py_strip l))"
  using assms(1) _ _ assms(3)
proof (rule text_field_last)
  show "\<And>r r'. parse_line r l = Inr r' \<Longrightarrow> analysis.reason r' = py_strip (drop 7 (py_strip l))"
    using assms(2) by (auto simp: parse_line_Reason)
qed (rule parse_line_reason_frame)

lemma analyze_article_quality_cases:
  "analyze_article_quality g a = fallback_result
   \<or> (\<exists>response. analyze_article_quality g a = parse_quality_analysis response a)"
  by (auto simp: analyze_article_quality_def split: option.splits)

text \<open>
  Claim C1. For every article and every reply of the generation service, garbage
  included, the quality score and the relevance score of the analysis are integers between
  1 and 10: a field whose last parsable line holds the number \<open>n\<close> is \<open>n\<close> clamped to
  [1, 10], and a field with no line, or with no line whose number parses, is left at 5.
\<close>

theorem scores_between_1_and_10:
  "1 \<le> quality_score (analyze_article_quality generate_response article)
   \<and> quality_score (analyze_article_quality generate_response article) \<le> 10
   \<and> 1 \<le> relevance_score (analyze_article_quality generate_response article)
   \<and> relevance_score (analyze_article_quality generate_response article) \<le> 10
   \<and> 1 \<le> quality_score (parse_quality_analysis response article)
   \<and> quality_score (parse_quality_analysis response article) \<le> 10
   \<and> 1 \<le> relevance_score (parse_quality_analysis response article)
   \<and> relevance_score (parse_quality_analysis response article) \<le> 10
   \<and> ((\<forall>l \<in> set (reply_lines response).
          startswith (py_strip l) ''Quality:'' \<longrightarrow> isl (parse_score (py_strip l)))
        \<longrightarrow> quality_score (parse_quality_analysis response article) = 5)
   \<and> ((\<forall>l \<in> set (reply_lines response).
          startswith (py_strip l) ''Relevance:'' \<longrightarrow> isl (parse_score (py_strip l)))
        \<longrightarrow> relevance_score (parse_quality_analysis response article) = 5)
   \<and> (reply_lines response = pre @ l # post
        \<and> startswith (py_strip l) ''Quality:'' \<and> parse_score (py_strip l) = Inr n
        \<and> (\<forall>l' \<in> set post.
              startswith (py_strip l') ''Quality:'' \<longrightarrow> isl (parse_score (py_strip l')))
        \<longrightarrow> quality_score (parse_quality_analysis response article) = max 1 (min 10 n))
   \<and> (reply_lines response = pre @ l # post
        \<and> startswith (py_strip l) ''Relevance:'' \<and> parse_score (py_strip l) = Inr n
        \<and> (\<forall>l' \<in> set post.
              startswith (py_strip l') ''Relevance:'' \<longrightarrow> isl (parse_score (py_strip l')))
        \<longrightarrow> relevance_score (parse_quality_analysis response article) = max 1 (min 10 n))"
proof -
  have range: "1 \<le> quality_score (analyze_article_quality generate_response article)
   \<and> quality_score (analyze_article_quality generate_response article) \<le> 10
   \<and> 1 \<le> relevance_score (analyze_article_quality generate_response article)
   \<and> relevance_score (analyze_article_quality generate_response article) \<le> 10"
    using analyze_article_quality_cases [of generate_response article]
      parse_quality_analysis_range [of _ article]
    by (auto simp: fallback_result_def)
  show ?thesis
    using range parse_quality_analysis_range [of response article]
      quality_default [of response article] relevance_default [of response article]
      quality_last_parsed [of response pre l post n article]
      relevance_last_parsed [of response pre l post n article]
    by blast
qed

theorem scores_between_1_and_10_witness:
  "quality_score (parse_quality_analysis garbage_reply (candidate ''A title'' ''u'')) = 10
   \<and> relevance_score (parse_quality_analysis garbage_reply (candidate ''A title'' ''u'')) = 5
   \<and> 1 \<le> quality_score (analyze_article_quality (\<lambda>p. Some garbage_reply) (candidate ''A title'' ''u''))"
proof -
  let ?pre = "[''I am sorry, I cannot rate this.'']"
  let ?l = "''Quality: 12/10''"
  let ?post = "[''relevance: 9'', ''Relevance: very high'']"
  have q: "reply_lines garbage_reply = ?pre @ ?l # ?post
        \<and> startswith (py_strip ?l) ''Quality:'' \<and> parse_score (py_strip ?l) = Inr 12
        \<and> (\<forall>l' \<in> set ?post.
              startswith (py_strip l') ''Quality:'' \<longrightarrow> isl (parse_score (py_strip l')))"
    by code_simp
  have r: "\<forall>l \<in> set (reply_lines garbage_reply).
          startswith (py_strip l) ''Relevance:'' \<longrightarrow> isl (parse_score (py_strip l))"
    by code_simp
  from scores_between_1_and_10 [of "\<lambda>p. Some garbage_reply" "candidate ''A title'' ''u''"
      garbage_reply ?pre ?l ?post 12] q r
  show ?thesis by simp
qed

section \<open>Failure of the generation service\<close>

lemma final_score_score_article:
  "final_score (score_article g a)
   = real_of_int (quality_score (analyze_article_quality g a)
                  + relevance_score (analyze_article_quality g a)) / 2"
  by (simp add: score_article_def Let_def article.extend_def)

lemma llm_analysis_score_article:
  "curated_article.llm_analysis (score_article g a) = analyze_article_quality g a"
  by (simp add: score_article_def Let_def article.extend_def)

text \<open>
  Claim C2. For every article: when the generation call returns no response (\<open>None\<close>, or
  the empty reply, which \<open>if response:\<close> treats alike), the analysis is the fallback record
  with both scores 5, category "AI/ML", the single insight "Unable to analyze with LLM" and
  reason "LLM analysis failed"; when the call fails or no line of the reply begins with a
  known field prefix, both scores are 5 and the final score that the curation loop stores is
  5.0. Nothing is raised: the analysis is a value in every case, and the parse loop itself
  never leaves through an exception.
\<close>

theorem fallback_on_failure_or_no_prefix:
  "(generate_response (quality_prompt article) = None
      \<or> generate_response (quality_prompt article) = Some []
    \<longrightarrow> analyze_article_quality generate_response article
        = \<lparr>quality_score = 5, relevance_score = 5, analysis.category = ''AI/ML'',
           insights = [''Unable to analyze with LLM''], reason = ''LLM analysis failed'',
           analysis.llm_analysis = False, raw_response = None\<rparr>)
   \<and> (generate_response (quality_prompt article) = None
        \<or> generate_response (quality_prompt article) = Some []
        \<or> (\<exists>response. generate_response (quality_prompt article) = Some response
              \<and> (\<forall>l \<in> set (reply_lines response).
                    \<not> startswith (py_strip l) ''Quality:''
                    \<and> \<not> startswith (py_strip l) ''Relevance:''
                    \<and> \<not> startswith (py_strip l) ''Category:''
                    \<and> \<not> startswith (py_strip l) ''Insights:''
                    \<and> \<not> startswith (py_strip l) ''Reason:''))
      \<longrightarrow> quality_score (analyze_article_quality generate_response article) = 5
        \<and> relevance_score (analyze_article_quality generate_response article) = 5
        \<and> curated_article.llm_analysis (score_article generate_response article)
            = analyze_article_quality generate_response article
        \<and> final_score (score_article generate_response article) = 5)
   \<and> (\<exists>result. parse_lines (initial_result response) (reply_lines response) = Inr result)"
proof -
  let ?reply = "generate_response (quality_prompt article)"
  have failed: "analyze_article_quality generate_response article = fallback_result"
    if "?reply = None \<or> ?reply = Some []"
    using that by (auto simp: analyze_article_quality_def)
  have scores: "quality_score (analyze_article_quality generate_response article) = 5
        \<and> relevance_score (analyze_article_quality generate_response article) = 5"
    if "?reply = None \<or> ?reply = Some []
        \<or> (\<exists>response. ?reply = Some response
              \<and> (\<forall>l \<in> set (reply_lines response).
                    \<not> startswith (py_strip l) ''Quality:''
                    \<and> \<not> startswith (py_strip l) ''Relevance:''
                    \<and> \<not> startswith (py_strip l) ''Category:''
                    \<and> \<not> startswith (py_strip l) ''Insights:''
                    \<and> \<not> startswith (py_strip l) ''Reason:''))"
    using that
  proof (elim disjE exE conjE)
    fix response
    assume reply: "?reply = Some response"
      and none: "\<forall>l \<in> set (reply_lines response).
                    \<not> startswith (py_strip l) ''Quality:''
                    \<and> \<not> startswith (py_strip l) ''Relevance:''
                    \<and> \<not> startswith (py_strip l) ''Category:''
                    \<and> \<not> startswith (py_strip l) ''Insights:''
                    \<and> \<not> startswith (py_strip l) ''Reason:''"
    have "quality_score (parse_quality_analysis response article) = 5"
      using none by (intro quality_default) blast
    moreover have "relevance_score (parse_quality_analysis response article) = 5"
      using none by (intro relevance_default) blast
    ultimately show ?thesis
      using reply by (simp add: analyze_article_quality_def fallback_result_def)
  qed (simp_all add: failed fallback_result_def)
  have final: "final_score (score_article generate_response article) = 5"
    if "quality_score (analyze_article_quality generate_response article) = 5
        \<and> relevance_score (analyze_article_quality generate_response article) = 5"
    using that by (simp add: final_score_score_article)
  show ?thesis
    using failed scores final parse_lines_total [of "initial_result response" "reply_lines response"]
    by (simp add: fallback_result_def llm_analysis_score_article)
qed

theorem fallback_on_failure_or_no_prefix_witness:
  "analysis.reason (analyze_article_quality (\<lambda>p. None) (candidate ''A title'' ''u''))
     = ''LLM analysis failed''
   \<and> final_score (score_article (\<lambda>p. None) (candidate ''A title'' ''u'')) = 5
   \<and> final_score (score_article (\<lambda>p. Some chatty_reply) (candidate ''A title'' ''u'')) = 5"
proof -
  let ?a = "candidate ''A title'' ''u''"
  have none: "\<forall>l \<in> set (reply_lines chatty_reply).
                    \<not> startswith (py_strip l) ''Quality:''
                    \<and> \<not> startswith (py_strip l) ''Relevance:''
                    \<and> \<not> startswith (py_strip l) ''Category:''
                    \<and> \<not> startswith (py_strip l) ''Insights:''
                    \<and> \<not> startswith (py_strip l) ''Reason:''"
    by code_simp
  from fallback_on_failure_or_no_prefix [of "\<lambda>p. None" ?a]
  have 1: "analysis.reason (analyze_article_quality (\<lambda>p. None) ?a) = ''LLM analysis failed''"
    and 2: "final_score (score_article (\<lambda>p. None) ?a) = 5"
    by simp_all
  from fallback_on_failure_or_no_prefix [of "\<lambda>p. Some chatty_reply" ?a] none
  have 3: "final_score (score_article (\<lambda>p. Some chatty_reply) ?a) = 5"
    by simp
  from 1 2 3 show ?thesis by simp
qed

section \<open>Letter case and repeated lines\<close>

lemma py_strip_keeps_prefix:
  assumes "p \<noteq> []" "\<forall>c \<in> set p. \<not> py_isspace c"
  shows "\<exists>rest'. py_strip (p @ rest) = p @ rest'"
proof -
  from assms obtain c cs where p: "p = c # cs" "\<not> py_isspace c"
    by (cases p) auto
  have left: "dropWhile py_isspace (p @ rest) = p @ rest"
    using p by simp
  have "\<not> py_isspace (last p)"
    using assms by simp
  then have "dropWhile py_isspace (rev p) = rev p"
    using assms(1) by (cases "rev p") (auto simp: last_rev hd_rev dest: arg_cong [where f = hd])
  then have "\<exists>zs. dropWhile py_isspace (rev rest @ rev p) = zs @ rev p"
    by (auto simp: dropWhile_append)
  then obtain zs where "dropWhile py_isspace (rev (p @ rest)) = zs @ rev p"
    by auto
  then have "py_strip (p @ rest) = rev (zs @ rev p)"
    by (simp only: py_strip_def left)
  then have "py_strip (p @ rest) = p @ rev zs"
    by simp
  then show ?thesis by blast
qed

lemma other_case_ignored:
  assumes "p \<in> {''quality:'', ''QUALITY:'', ''relevance:'', ''RELEVANCE:'', ''category:'',
                ''CATEGORY:'', ''insights:'', ''INSIGHTS:'', ''reason:'', ''REASON:''}"
  shows "parse_line r (p @ rest) = Inr r"
proof -
  have "p \<noteq> []" "\<forall>c \<in> set p. \<not> py_isspace c"
    using assms by (auto simp: py_isspace_def)
  then obtain rest' where s: "py_strip (p @ rest) = p @ rest'"
    using py_strip_keeps_prefix by blast
  show ?thesis
    using assms by (rule_tac parse_line_other) (auto simp: s startswith_def)
qed

text \<open>
  Claim C6, amended. The parser matches the field prefixes in their exact letter case. A
  line that (stripped) begins with none of \<open>Quality:\<close>, \<open>Relevance:\<close>, \<open>Category:\<close>,
  \<open>Insights:\<close>, \<open>Reason:\<close> as written leaves the record unchanged; in particular every
  line that begins with the lower-case or the upper-case spelling of a prefix is ignored.
  A line that begins with the prefix as written is recognized and its value stored.
\<close>

theorem prefixes_matched_in_exact_case:
  "(\<not> startswith (py_strip l) ''Quality:'' \<and> \<not> startswith (py_strip l) ''Relevance:''
      \<and> \<not> startswith (py_strip l) ''Category:'' \<and> \<not> startswith (py_strip l) ''Insights:''
      \<and> \<not> startswith (py_strip l) ''Reason:''
    \<longrightarrow> parse_line r l = Inr r)
   \<and> (p \<in> {''quality:'', ''QUALITY:'', ''relevance:'', ''RELEVANCE:'', ''category:'',
             ''CATEGORY:'', ''insights:'', ''INSIGHTS:'', ''reason:'', ''REASON:''}
      \<longrightarrow> parse_line r (p @ rest) = Inr r)
   \<and> (startswith (py_strip l) ''Quality:'' \<and> parse_score (py_strip l) = Inr n
      \<longrightarrow> parse_line r l = Inr (r\<lparr>quality_score := max 1 (min 10 n)\<rparr>))
   \<and> (startswith (py_strip l) ''Relevance:'' \<and> parse_score (py_strip l) = Inr n
      \<longrightarrow> parse_line r l = Inr (r\<lparr>relevance_score := max 1 (min 10 n)\<rparr>))
   \<and> (startswith (py_strip l) ''Category:''
      \<longrightarrow> parse_line r l = Inr (r\<lparr>analysis.category := py_strip (drop 9 (py_strip l))\<rparr>))
   \<and> (startswith (py_strip l) ''Insights:''
      \<longrightarrow> parse_line r l = Inr (r\<lparr>analysis.insights := [py_strip (drop 9 (py_strip l))]\<rparr>))
   \<and> (startswith (py_strip l) ''Reason:''
      \<longrightarrow> parse_line r l = Inr (r\<lparr>analysis.reason := py_strip (drop 7 (py_strip l))\<rparr>))"
  using parse_line_other [of l r] other_case_ignored [of p r rest]
    parse_line_Quality [of l r] parse_line_Relevance [of l r] parse_line_Category [of l r]
    parse_line_Insights [of l r] parse_line_Reason [of l r]
  by simp

theorem prefixes_matched_in_exact_case_witness:
  "parse_line (initial_result []) ''quality: 8/10'' = Inr (initial_result [])
   \<and> parse_line (initial_result []) ''QUALITY: 8/10'' = Inr (initial_result [])
   \<and> parse_line (initial_result []) ''Quality: 8/10''
       = Inr ((initial_result [])\<lparr>quality_score := 8\<rparr>)"
proof -
  have h: "startswith (py_strip ''Quality: 8/10'') ''Quality:''
           \<and> parse_score (py_strip ''Quality: 8/10'') = Inr 8"
    by code_simp
  from prefixes_matched_in_exact_case [of _ "initial_result []" "''quality:''" "'' 8/10''"]
  have 1: "parse_line (initial_result []) ''quality: 8/10'' = Inr (initial_result [])"
    by simp
  from prefixes_matched_in_exact_case [of _ "initial_result []" "''QUALITY:''" "'' 8/10''"]
  have 2: "parse_line (initial_result []) ''QUALITY: 8/10'' = Inr (initial_result [])"
    by simp
  from prefixes_matched_in_exact_case [of "''Quality: 8/10''" "initial_result []" _ _ 8] h
  have 3: "parse_line (initial_result []) ''Quality: 8/10''
       = Inr ((initial_result [])\<lparr>quality_score := 8\<rparr>)"
    by simp
  from 1 2 3 show ?thesis by simp
qed

text \<open>
  Claim C6, as stated, fails: the replies \<open>quality: 8/10\<close> and \<open>QUALITY: 8/10\<close> leave the
  quality score at its default 5, where \<open>Quality: 8/10\<close> stores 8.
\<close>

theorem case_insensitive_prefix_counterexample:
  "quality_score (parse_quality_analysis ''quality: 8/10'' (candidate ''A title'' ''u'')) = 5
   \<and> quality_score (parse_quality_analysis ''QUALITY: 8/10'' (candidate ''A title'' ''u'')) = 5
   \<and> quality_score (parse_quality_analysis ''Quality: 8/10'' (candidate ''A title'' ''u'')) = 8"
  by code_simp

text \<open>
  Claim C10, as stated, fails for the numeric fields: in the reply below the second
  \<open>Quality:\<close> line does not overwrite the value of the first, whose 8 is the result.
\<close>

theorem later_line_overwrites_counterexample:
  "reply_lines ''Quality: 8/10\<newline>Quality: n/a'' = [''Quality: 8/10'', ''Quality: n/a'']
   \<and> quality_score (parse_quality_analysis ''Quality: 8/10\<newline>Quality: n/a''
        (candidate ''A title'' ''u'')) = 8"
  by code_simp

text \<open>
  Claim C10, amended. When a reply has several lines with the same recognized prefix, the
  category, the insights and the reason are those of the last such line; the quality and
  the relevance score are those of the last such line whose number parses (a later line
  of the field that does not parse leaves the stored value in place).
\<close>

theorem last_stored_line_wins:
  "reply_lines response = pre @ l # post \<longrightarrow>
     (startswith (py_strip l) ''Category:''
        \<and> (\<forall>l' \<in> set post. \<not> startswith (py_strip l') ''Category:'')
      \<longrightarrow> analysis.category (parse_quality_analysis response article)
          = py_strip (drop 9 (py_strip l)))
   \<and> (startswith (py_strip l) ''Insights:''
        \<and> (\<forall>l' \<in> set post. \<not> startswith (py_strip l') ''Insights:'')
      \<longrightarrow> analysis.insights (parse_quality_analysis response article)
          = [py_strip (drop 9 (py_strip l))])
   \<and> (startswith (py_strip l) ''Reason:''
        \<and> (\<forall>l' \<in> set post. \<not> startswith (py_strip l') ''Reason:'')
      \<longrightarrow> analysis.reason (parse_quality_analysis response article)
          = py_strip (drop 7 (py_strip l)))
   \<and> (startswith (py_strip l) ''Quality:'' \<and> parse_score (py_strip l) = Inr n
        \<and> (\<forall>l' \<in> set post.
              startswith (py_strip l') ''Quality:'' \<longrightarrow> isl (parse_score (py_strip l')))
      \<longrightarrow> quality_score (parse_quality_analysis response article) = max 1 (min 10 n))
   \<and> (startswith (py_strip l) ''Relevance:'' \<and> parse_score (py_strip l) = Inr n
        \<and> (\<forall>l' \<in> set post.
              startswith (py_strip l') ''Relevance:'' \<longrightarrow> isl (parse_score (py_strip l')))
      \<longrightarrow> relevance_score (parse_quality_analysis response article) = max 1 (min 10 n))"
  using category_last [of response pre l post article]
    insights_last [of response pre l post article]
    reason_last [of response pre l post article]
    quality_last_parsed [of response pre l post n article]
    relevance_last_parsed [of response pre l post n article]
  by blast

theorem last_stored_line_wins_witness:
  "analysis.category (parse_quality_analysis repeated_reply (candidate ''A title'' ''u''))
     = ''Research''
   \<and> quality_score (parse_quality_analysis repeated_reply (candidate ''A title'' ''u'')) = 8"
proof -
  let ?a = "candidate ''A title'' ''u''"
  have c: "reply_lines repeated_reply
             = [''Quality: 8/10'', ''Category: Tools'', ''Quality: n/a''] @ ''Category: Research'' # []
           \<and> startswith (py_strip ''Category: Research'') ''Category:''
           \<and> py_strip (drop 9 (py_strip ''Category: Research'')) = ''Research''"
    by code_simp
  have q: "reply_lines repeated_reply
             = [] @ ''Quality: 8/10'' # [''Category: Tools'', ''Quality: n/a'', ''Category: Research'']
           \<and> startswith (py_strip ''Quality: 8/10'') ''Quality:''
           \<and> parse_score (py_strip ''Quality: 8/10'') = Inr 8
           \<and> (\<forall>l' \<in> set [''Category: Tools'', ''Quality: n/a'', ''Category: Research''].
                 startswith (py_strip l') ''Quality:'' \<longrightarrow> isl (parse_score (py_strip l')))"
    by code_simp
  from last_stored_line_wins [of repeated_reply
      "[''Quality: 8/10'', ''Category: Tools'', ''Quality: n/a'']" "''Category: Research''" "[]" ?a] c
  have 1: "analysis.category (parse_quality_analysis repeated_reply ?a) = ''Research''"
    by simp
  from last_stored_line_wins [of repeated_reply "[]" "''Quality: 8/10''"
      "[''Category: Tools'', ''Quality: n/a'', ''Category: Research'']" ?a 8] q
  have 2: "quality_score (parse_quality_analysis repeated_reply ?a) = 8"
    by simp
  from 1 2 show ?thesis by simp
qed

section \<open>Ranking and selection\<close>

lemma sorted_desc_sorted: "sorted_wrt (\<lambda>a b. key a \<ge> key b) (sorted_desc key xs)"
proof -
  have "sorted_wrt (\<lambda>a b. key a \<le> key b) (sort_key key (rev xs))"
    using sorted_sort_key [of key "rev xs"] by (simp add: sorted_map)
  then show ?thesis
    by (simp add: sorted_desc_def sorted_wrt_rev)
qed

lemma sorted_desc_stable:
  "filter (\<lambda>y. key y = k) (sorted_desc key xs) = filter (\<lambda>y. key y = k) xs"
proof -
  have "filter (\<lambda>y. key y = k) (sorted_desc key xs)
        = rev (filter (\<lambda>y. key y = k) (sort_key key (rev xs)))"
    by (simp add: sorted_desc_def rev_filter)
  also have "\<dots> = rev (filter (\<lambda>y. key y = k) (rev xs))"
    by (simp only: sort_key_stable)
  also have "\<dots> = filter (\<lambda>y. key y = k) xs"
    by (simp add: rev_filter)
  finally show ?thesis .
qed

lemma set_sorted_desc: "set (sorted_desc key xs) = set xs"
  by (simp add: sorted_desc_def)

lemma length_sorted_desc: "length (sorted_desc key xs) = length xs"
  by (simp add: sorted_desc_def)

lemma truncate_score_article: "article.truncate (score_article g a) = a"
  by (simp add: score_article_def Let_def article.extend_def article.truncate_def)

lemma scored_articles_truncate: "map article.truncate (scored_articles generate articles) = articles"
proof -
  have "map article.truncate (scored_articles generate articles)
        = map snd (enumerate 0 articles)"
    by (simp add: scored_articles_def truncate_score_article case_prod_unfold comp_def)
  then show ?thesis by simp
qed

lemma scored_articles_nth:
  "i < length articles \<Longrightarrow>
   scored_articles generate articles ! i = score_article (generate i) (articles ! i)"
  by (simp add: scored_articles_def nth_enumerate_eq)

lemma scored_articles_final_score:
  assumes "a \<in> set (scored_articles generate articles)"
  shows "final_score a = real_of_int (quality_score (curated_article.llm_analysis a)
                                      + relevance_score (curated_article.llm_analysis a)) / 2"
proof -
  from assms obtain i b where "a = score_article (generate i) b"
    by (auto simp: scored_articles_def)
  then show ?thesis
    by (simp add: final_score_score_article llm_analysis_score_article)
qed

lemma curate_articles_eq:
  "curate_articles generate articles = sorted_desc final_score (scored_articles generate articles)"
  by (simp add: curate_articles_def scored_articles_def sorted_desc_def)

lemma slice_to_subseq: "subseq (slice_to xs n) xs"
proof -
  have "subseq (take m xs) xs" for m
    by (metis append_take_drop_id prefix_def prefix_imp_subseq)
  then show ?thesis by (simp add: slice_to_def)
qed

lemma slice_to_set: "set (slice_to xs n) \<subseteq> set xs"
  by (simp add: slice_to_def set_take_subset)

text \<open>
  Claim C3. For every input list, the curation loop annotates each article, in input
  order, with its analysis and with the final score (quality + relevance) / 2;
  \<open>curate_articles\<close> returns these annotated articles sorted by final score, highest
  first, and the sort is stable: the articles of any one final score appear in their
  input order. \<open>select_top_articles\<close> returns articles of final score at least 6.0 only,
  in the sorted order, and for a requested count \<open>count \<ge> 0\<close> it is the first \<open>count\<close>
  of them, so at most \<open>count\<close> articles.
\<close>

theorem curated_sorted_stably_then_selected:
  "map article.truncate (scored_articles generate articles) = articles
   \<and> (\<forall>i < length articles.
         scored_articles generate articles ! i = score_article (generate i) (articles ! i))
   \<and> set (curate_articles generate articles) = set (scored_articles generate articles)
   \<and> length (curate_articles generate articles) = length articles
   \<and> (\<forall>a \<in> set (curate_articles generate articles).
         final_score a = real_of_int (quality_score (curated_article.llm_analysis a)
                                      + relevance_score (curated_article.llm_analysis a)) / 2)
   \<and> sorted_wrt (\<lambda>a b. final_score a \<ge> final_score b) (curate_articles generate articles)
   \<and> (\<forall>k. filter (\<lambda>a. final_score a = k) (curate_articles generate articles)
           = filter (\<lambda>a. final_score a = k) (scored_articles generate articles))
   \<and> (\<forall>a \<in> set (select_top_articles generate articles count). final_score a \<ge> 6)
   \<and> subseq (select_top_articles generate articles count) (curate_articles generate articles)
   \<and> (0 \<le> count \<longrightarrow>
         select_top_articles generate articles count
           = take (nat count) (filter (\<lambda>a. final_score a \<ge> 6) (curate_articles generate articles))
         \<and> int (length (select_top_articles generate articles count)) \<le> count)"
proof -
  let ?scored = "scored_articles generate articles"
  let ?curated = "curate_articles generate articles"
  let ?high = "filter (\<lambda>a. final_score a \<ge> 6) ?curated"
  have same_set: "set ?curated = set ?scored"
    by (simp add: curate_articles_eq set_sorted_desc)
  have len: "length ?curated = length articles"
    by (simp add: curate_articles_eq length_sorted_desc scored_articles_def)
  have score: "\<forall>a \<in> set ?curated.
         final_score a = real_of_int (quality_score (curated_article.llm_analysis a)
                                      + relevance_score (curated_article.llm_analysis a)) / 2"
    using scored_articles_final_score by (simp add: same_set)
  have sorted: "sorted_wrt (\<lambda>a b. final_score a \<ge> final_score b) ?curated"
    by (simp add: curate_articles_eq sorted_desc_sorted)
  have stable: "\<forall>k. filter (\<lambda>a. final_score a = k) ?curated
                   = filter (\<lambda>a. final_score a = k) ?scored"
    by (simp add: curate_articles_eq sorted_desc_stable)
  have sel: "select_top_articles generate articles count = slice_to ?high count"
    by (simp add: select_top_articles_def)
  have sub_high: "subseq (select_top_articles generate articles count) ?high"
    by (simp add: sel slice_to_subseq)
  have high: "\<forall>a \<in> set (select_top_articles generate articles count). final_score a \<ge> 6"
  proof
    fix a
    assume "a \<in> set (select_top_articles generate articles count)"
    then have "a \<in> set ?high"
      using slice_to_set [of ?high count] by (auto simp: sel)
    then show "final_score a \<ge> 6" by simp
  qed
  have sub: "subseq (select_top_articles generate articles count) ?curated"
    using sub_high by (rule subseq_order.trans) simp
  have cut: "0 \<le> count \<longrightarrow>
         select_top_articles generate articles count = take (nat count) ?high
         \<and> int (length (select_top_articles generate articles count)) \<le> count"
    by (auto simp: sel slice_to_def)
  have trunc: "map article.truncate ?scored = articles"
    by (rule scored_articles_truncate)
  have nth: "\<forall>i < length articles. ?scored ! i = score_article (generate i) (articles ! i)"
    by (simp add: scored_articles_nth)
  from trunc nth same_set len score sorted stable high sub cut
  show ?thesis by (intro conjI)
qed

theorem curated_sorted_stably_then_selected_witness:
  "map title (select_top_articles example_generate example_candidates 2)
     = [''OPENAI RELEASES A NEW REASONING MODEL'', ''OpenAI releases a new reasoning model'']
   \<and> map final_score (curate_articles example_generate example_candidates) = [15 / 2, 7, 7, 5]
   \<and> sorted_wrt (\<lambda>a b. final_score a \<ge> final_score b)
        (curate_articles example_generate example_candidates)"
proof -
  have 1: "map title (select_top_articles example_generate example_candidates 2)
     = [''OPENAI RELEASES A NEW REASONING MODEL'', ''OpenAI releases a new reasoning model'']"
    by code_simp
  have 2: "map final_score (curate_articles example_generate example_candidates)
     = [15 / 2, 7, 7, 5]"
    by code_simp
  from curated_sorted_stably_then_selected [of example_generate example_candidates 2]
  have 3: "sorted_wrt (\<lambda>a b. final_score a \<ge> final_score b)
        (curate_articles example_generate example_candidates)"
    by (elim conjE)
  from 1 2 3 show ?thesis by (intro conjI)
qed

section \<open>Trends\<close>

lemma insort_key_map:
  "insort_key k (f x) (map f ys) = map f (insort_key (\<lambda>y. k (f y)) x ys)"
  by (induction ys) auto

lemma sort_key_map: "sort_key k (map f xs) = map f (sort_key (\<lambda>y. k (f y)) xs)"
  by (induction xs) (auto simp: insort_key_map)

lemma sorted_desc_map: "sorted_desc k (map f xs) = map f (sorted_desc (\<lambda>y. k (f y)) xs)"
  by (simp add: sorted_desc_def sort_key_map rev_map)

lemma distinct_sorted_desc: "distinct (sorted_desc key xs) = distinct xs"
  by (simp add: sorted_desc_def)

lemma distinct_ai_terms: "distinct ai_terms"
  by (simp add: ai_terms_def)

lemma term_counts_eq:
  "term_counts articles
   = map (\<lambda>t. (t, term_count articles t)) (filter (\<lambda>t. 2 \<le> term_count articles t) ai_terms)"
  by (simp add: term_counts_def filter_map comp_def)

lemma term_count_no_articles: "term_count [] t < 2"
  by (simp add: term_count_def total_text_def py_lower_def py_count_def)

lemma detect_trends_ranked:
  "detect_trends articles
   = map (\<lambda>t. t @ '' developments (mentioned '' @ str_nat (term_count articles t) @ '' times)'')
       (take 3 (sorted_desc (term_count articles)
                  (filter (\<lambda>t. 2 \<le> term_count articles t) ai_terms)))"
proof (cases "articles = []")
  case True
  have "filter (\<lambda>t. 2 \<le> term_count ([] :: ('a article_scheme) list) t) ai_terms = []"
    using term_count_no_articles by (auto simp: filter_empty_conv not_le)
  then show ?thesis
    using True by (simp add: detect_trends_def sorted_desc_def)
next
  case False
  then show ?thesis
    by (simp add: detect_trends_def term_counts_eq sorted_desc_map take_map trend_line_def comp_def)
qed

lemma str_nat_3: "str_nat 3 = ''3''"
  by code_simp

lemma py_lower_char_idem: "py_lower_char (py_lower_char c) = py_lower_char c"
  by (auto simp: py_lower_char_def Let_def)

lemma py_lower_Nil: "py_lower [] = []"
  by (simp add: py_lower_def)

lemma py_lower_Cons: "py_lower (c # s) = py_lower_char c # py_lower s"
  by (simp add: py_lower_def)

lemma py_lower_idem: "py_lower (py_lower s) = py_lower s"
  by (simp add: py_lower_def py_lower_char_idem)

lemma py_lower_append: "py_lower (a @ b) = py_lower a @ py_lower b"
  by (simp add: py_lower_def)

lemma py_lower_concat: "py_lower (concat xs) = concat (map py_lower xs)"
  by (induction xs) (simp_all add: py_lower_Nil py_lower_append)

lemma py_lower_char_space: "py_lower_char CHR '' '' = CHR '' ''"
  by code_simp

lemma total_text_fields:
  "total_text articles
   = concat (map (\<lambda>(t, s). t @ '' '' @ s @ '' '')
       (map (\<lambda>a. (py_lower (title a), py_lower (summary a))) articles))"
  by (simp add: total_text_def py_lower_append py_lower_Cons py_lower_Nil
      py_lower_char_space comp_def)

lemma lower_total_text:
  "py_lower (total_text articles)
   = py_lower (concat (map (\<lambda>a. title a @ '' '' @ summary a @ '' '') articles))"
  by (simp add: total_text_def py_lower_concat py_lower_append py_lower_Cons py_lower_Nil
      py_lower_char_space py_lower_char_idem py_lower_idem comp_def)

lemma term_count_lower:
  "term_count articles t
   = py_count (py_lower (concat (map (\<lambda>a. title a @ '' '' @ summary a @ '' '') articles)))
       (py_lower t)"
  by (simp add: term_count_def lower_total_text)

lemma detect_trends_case_insensitive:
  assumes "map (\<lambda>a. (py_lower (title a), py_lower (summary a))) articles
           = map (\<lambda>a. (py_lower (title a), py_lower (summary a))) articles'"
  shows "detect_trends articles = detect_trends articles'"
proof -
  from assms have "total_text articles = total_text articles'"
    by (simp only: total_text_fields)
  then have cnt: "term_count articles = term_count articles'"
    by (simp add: term_count_def fun_eq_iff)
  from assms have "length articles = length articles'"
    by (rule map_eq_imp_length_eq)
  then have "(articles = []) = (articles' = [])"
    by auto
  with cnt show ?thesis
    by (simp add: detect_trends_def term_counts_def)
qed

text \<open>
  Claim C7. For every list of articles, \<open>detect_trends\<close> returns at most 3 trends. The
  count of a vocabulary term is case-insensitive: it is the number of occurrences, as
  \<open>str.count\<close> counts them, of the lower-cased term in the lower-cased concatenation of
  the title and summary text of all articles, so two corpora that differ in letter case
  only have the same trends. The trends are the first three of the vocabulary terms whose
  count is at least 2, ranked by count, highest first, terms of equal count in vocabulary
  order, and each is formatted as "<term> developments (mentioned <count> times)". In
  particular, for a corpus where "GPT" occurs 3 times, "NLP" once and no other term twice,
  the result is exactly ["GPT developments (mentioned 3 times)"].
\<close>

theorem top_three_repeated_terms:
  "length (detect_trends articles) \<le> 3
   \<and> (\<forall>t. term_count articles t
          = py_count
              (py_lower (concat (map (\<lambda>a. title a @ '' '' @ summary a @ '' '') articles)))
              (py_lower t))
   \<and> (map (\<lambda>a. (py_lower (title a), py_lower (summary a))) articles
        = map (\<lambda>a. (py_lower (title a), py_lower (summary a))) articles'
      \<longrightarrow> detect_trends articles = detect_trends articles')
   \<and> (\<exists>ranked.
         detect_trends articles
           = map (\<lambda>t. t @ '' developments (mentioned '' @ str_nat (term_count articles t) @ '' times)'')
               (take 3 ranked)
         \<and> distinct ranked
         \<and> set ranked = {t \<in> set ai_terms. 2 \<le> term_count articles t}
         \<and> sorted_wrt (\<lambda>s t. term_count articles s \<ge> term_count articles t) ranked
         \<and> (\<forall>k. filter (\<lambda>t. term_count articles t = k) ranked
                 = filter (\<lambda>t. term_count articles t = k \<and> 2 \<le> k) ai_terms))
   \<and> (articles \<noteq> [] \<and> term_count articles ''GPT'' = 3 \<and> term_count articles ''NLP'' = 1
        \<and> (\<forall>t \<in> set ai_terms. t \<noteq> ''GPT'' \<longrightarrow> term_count articles t < 2)
      \<longrightarrow> detect_trends articles = [''GPT developments (mentioned 3 times)''])"
proof -
  let ?cnt = "term_count articles"
  let ?qualifying = "filter (\<lambda>t. 2 \<le> ?cnt t) ai_terms"
  let ?ranked = "sorted_desc ?cnt ?qualifying"
  let ?line = "\<lambda>t. t @ '' developments (mentioned '' @ str_nat (?cnt t) @ '' times)''"
  have eq: "detect_trends articles = map ?line (take 3 ?ranked)"
    by (rule detect_trends_ranked)
  have len: "length (detect_trends articles) \<le> 3"
    by (simp add: eq)
  have dist: "distinct ?ranked"
    by (simp add: distinct_sorted_desc distinct_ai_terms)
  have set: "set ?ranked = {t \<in> set ai_terms. 2 \<le> ?cnt t}"
    by (simp add: set_sorted_desc)
  have sorted: "sorted_wrt (\<lambda>s t. ?cnt s \<ge> ?cnt t) ?ranked"
    by (rule sorted_desc_sorted)
  have stable: "\<forall>k. filter (\<lambda>t. ?cnt t = k) ?ranked
                   = filter (\<lambda>t. ?cnt t = k \<and> 2 \<le> k) ai_terms"
  proof
    fix k
    have "filter (\<lambda>t. ?cnt t = k) ?ranked = filter (\<lambda>t. ?cnt t = k) ?qualifying"
      by (rule sorted_desc_stable)
    also have "\<dots> = filter (\<lambda>t. ?cnt t = k \<and> 2 \<le> k) ai_terms"
      by (auto intro: filter_cong)
    finally show "filter (\<lambda>t. ?cnt t = k) ?ranked
                   = filter (\<lambda>t. ?cnt t = k \<and> 2 \<le> k) ai_terms" .
  qed
  have ranked: "\<exists>ranked.
         detect_trends articles = map ?line (take 3 ranked)
         \<and> distinct ranked
         \<and> set ranked = {t \<in> set ai_terms. 2 \<le> ?cnt t}
         \<and> sorted_wrt (\<lambda>s t. ?cnt s \<ge> ?cnt t) ranked
         \<and> (\<forall>k. filter (\<lambda>t. ?cnt t = k) ranked
                 = filter (\<lambda>t. ?cnt t = k \<and> 2 \<le> k) ai_terms)"
    using eq dist set sorted stable by (intro exI [of _ ?ranked] conjI)
  have gpt: "detect_trends articles = [''GPT developments (mentioned 3 times)'']"
    if h: "articles \<noteq> [] \<and> ?cnt ''GPT'' = 3 \<and> ?cnt ''NLP'' = 1
        \<and> (\<forall>t \<in> set ai_terms. t \<noteq> ''GPT'' \<longrightarrow> ?cnt t < 2)"
  proof -
    from h have "?qualifying = [''GPT'']"
      by (simp add: ai_terms_def)
    then have "?ranked = [''GPT'']"
      by (simp add: sorted_desc_def)
    with h show ?thesis
      by (simp add: eq str_nat_3)
  qed
  have lower: "\<forall>t. ?cnt t
          = py_count
              (py_lower (concat (map (\<lambda>a. title a @ '' '' @ summary a @ '' '') articles)))
              (py_lower t)"
    by (simp add: term_count_lower)
  have same: "map (\<lambda>a. (py_lower (title a), py_lower (summary a))) articles
        = map (\<lambda>a. (py_lower (title a), py_lower (summary a))) articles'
      \<longrightarrow> detect_trends articles = detect_trends articles'"
    by (auto dest: detect_trends_case_insensitive)
  have rest: "articles \<noteq> [] \<and> ?cnt ''GPT'' = 3 \<and> ?cnt ''NLP'' = 1
        \<and> (\<forall>t \<in> set ai_terms. t \<noteq> ''GPT'' \<longrightarrow> ?cnt t < 2)
      \<longrightarrow> detect_trends articles = [''GPT developments (mentioned 3 times)'']"
    using gpt by (rule impI)
  from len lower same ranked rest show ?thesis by (intro conjI)
qed

theorem top_three_repeated_terms_witness:
  "py_count (concat (map (\<lambda>a. title a @ '' '' @ summary a @ '' '') gpt_corpus)) ''GPT'' = 1
   \<and> term_count gpt_corpus ''GPT'' = 3 \<and> term_count gpt_corpus ''NLP'' = 1
   \<and> detect_trends gpt_corpus = [''GPT developments (mentioned 3 times)'']"
proof -
  have exact: "py_count (concat (map (\<lambda>a. title a @ '' '' @ summary a @ '' '') gpt_corpus))
                 ''GPT'' = 1"
    by code_simp
  have h: "gpt_corpus \<noteq> [] \<and> term_count gpt_corpus ''GPT'' = 3
        \<and> term_count gpt_corpus ''NLP'' = 1
        \<and> (\<forall>t \<in> set ai_terms. t \<noteq> ''GPT'' \<longrightarrow> term_count gpt_corpus t < 2)"
    by code_simp
  from top_three_repeated_terms [of gpt_corpus gpt_corpus]
  have "gpt_corpus \<noteq> [] \<and> term_count gpt_corpus ''GPT'' = 3
        \<and> term_count gpt_corpus ''NLP'' = 1
        \<and> (\<forall>t \<in> set ai_terms. t \<noteq> ''GPT'' \<longrightarrow> term_count gpt_corpus t < 2)
      \<longrightarrow> detect_trends gpt_corpus = [''GPT developments (mentioned 3 times)'']"
    by (elim conjE)
  from this h have "detect_trends gpt_corpus = [''GPT developments (mentioned 3 times)'']"
    by (rule mp)
  with exact h show ?thesis by simp
qed

section \<open>Body text of a short document\<close>

lemma first_substantial_None:
  "\<forall>e \<in> set (soup_elements soup). length (get_text '' '' e) \<le> 200 \<Longrightarrow>
   first_substantial sels soup = None"
proof (induction sels)
  case Nil
  show ?case by simp
next
  case (Cons sel sels)
  show ?case
  proof (cases "select_one sel soup")
    case None
    with Cons show ?thesis by simp
  next
    case (Some e)
    then have "e \<in> set (soup_elements soup)"
      by (auto simp: select_one_def find_Some_iff)
    with Cons.prems have "length (get_text '' '' e) \<le> 200" by blast
    with Some Cons show ?thesis by (simp add: Let_def)
  qed
qed

lemma first_substantial_long:
  "first_substantial sels soup = Some text \<Longrightarrow> 200 < length text"
  by (induction sels) (auto simp: Let_def split: option.splits if_splits)

lemma get_text_single:
  "py_strip t \<noteq> [] \<Longrightarrow> get_text sep (Element name classes [Text t]) = py_strip t"
  by (simp add: get_text_def)

lemma one_paragraph:
  assumes "length (py_strip t) = 60"
  shows "first_substantial content_selectors [Element ''p'' classes [Text t]] = None"
    and "full_text [Element ''p'' classes [Text t]] = py_strip t"
    and "para_text [Element ''p'' classes [Text t]] = py_strip t"
proof -
  let ?soup = "[Element ''p'' classes [Text t]]"
  from assms have ne: "py_strip t \<noteq> []" by auto
  have els: "soup_elements ?soup = ?soup"
    by (simp add: soup_elements_def)
  show "first_substantial content_selectors ?soup = None"
    by (rule first_substantial_None) (simp add: els get_text_single [OF ne] assms)
  show "full_text ?soup = py_strip t"
    by (simp add: full_text_def find_all_def els get_text_single [OF ne] assms)
  show "para_text ?soup = py_strip t"
    by (simp add: para_text_def find_all_def els get_text_single [OF ne])
qed

text \<open>
  Claim C8. For a document whose only content is one paragraph tag holding a text of 60
  characters (counted as \<open>get_text\<close> reports it, without surrounding whitespace), the
  cascade returns that text verbatim through the all-paragraphs exit: no container
  selector yields more than 200 characters, the joined blocks of more than 50 characters
  do not exceed 200 characters, and the result is not "No content extracted". For every
  document, the sentinel exit is taken only when the concatenation of the paragraph texts
  is empty; whenever the returned string reads "No content extracted" and that
  concatenation is not empty, the string is the concatenation itself.
\<close>

theorem single_paragraph_verbatim_sentinel_only_if_empty:
  "(length (py_strip t) = 60 \<longrightarrow>
       first_substantial content_selectors [Element ''p'' classes [Text t]] = None
     \<and> length (full_text [Element ''p'' classes [Text t]]) \<le> 200
     \<and> extract_article_text_at [Element ''p'' classes [Text t]] = (Paragraphs, py_strip t)
     \<and> extract_article_text [Element ''p'' classes [Text t]] = py_strip t
     \<and> extract_article_text [Element ''p'' classes [Text t]] \<noteq> ''No content extracted'')
   \<and> (fst (extract_article_text_at soup) = Sentinel \<longrightarrow> para_text soup = [])
   \<and> (extract_article_text soup = ''No content extracted'' \<longrightarrow>
        para_text soup = [] \<or> para_text soup = ''No content extracted'')"
proof -
  have one: "first_substantial content_selectors [Element ''p'' classes [Text t]] = None
     \<and> length (full_text [Element ''p'' classes [Text t]]) \<le> 200
     \<and> extract_article_text_at [Element ''p'' classes [Text t]] = (Paragraphs, py_strip t)
     \<and> extract_article_text [Element ''p'' classes [Text t]] = py_strip t
     \<and> extract_article_text [Element ''p'' classes [Text t]] \<noteq> ''No content extracted''"
    if len: "length (py_strip t) = 60"
  proof -
    note p = one_paragraph [OF len, of classes]
    from len have ne: "py_strip t \<noteq> []" by auto
    have at: "extract_article_text_at [Element ''p'' classes [Text t]] = (Paragraphs, py_strip t)"
      using ne by (simp add: extract_article_text_at_def p len)
    have "py_strip t \<noteq> ''No content extracted''"
      using len by auto
    with at p len show ?thesis
      by (simp add: extract_article_text_def)
  qed
  have site: "para_text soup = []" if "fst (extract_article_text_at soup) = Sentinel"
    using that
    by (auto simp: extract_article_text_at_def split: option.splits if_splits)
  have val: "para_text soup = [] \<or> para_text soup = ''No content extracted''"
    if "extract_article_text soup = ''No content extracted''"
  proof (cases "first_substantial content_selectors soup")
    case (Some body)
    from first_substantial_long [OF Some] that Some show ?thesis
      by (auto simp: extract_article_text_def extract_article_text_at_def)
  next
    case None
    with that show ?thesis
      by (auto simp: extract_article_text_def extract_article_text_at_def split: if_splits)
  qed
  from one site val show ?thesis by blast
qed

theorem single_paragraph_verbatim_sentinel_only_if_empty_witness:
  "length sixty_chars = 60
   \<and> extract_article_text [Element ''p'' [] [Text sixty_chars]] = sixty_chars"
proof -
  have h: "length (py_strip sixty_chars) = 60 \<and> py_strip sixty_chars = sixty_chars
           \<and> length sixty_chars = 60"
    by code_simp
  from single_paragraph_verbatim_sentinel_only_if_empty [of sixty_chars "[]"]
  have "length (py_strip sixty_chars) = 60 \<longrightarrow>
        extract_article_text [Element ''p'' [] [Text sixty_chars]] = py_strip sixty_chars"
    by blast
  with h show ?thesis by simp
qed

end
